theory Spec2Isabelle
  imports Complex_Main
begin

section \<open>JavaScript values\<close>

text \<open>
  The Button component of govuk-frontend (\<^verbatim>\<open>button.bundle.mjs\<close>) is embedded function by
  function. Configuration data are JavaScript values. Strings are lists of 8-bit characters
  (code units below 256). A finite number is the rational it denotes; the two zeros of the
  host are not told apart (both are falsy and print alike). An object is the list of its own
  enumerable properties in enumeration order; properties inherited from
  \<^verbatim>\<open>Object.prototype\<close> (\<^verbatim>\<open>constructor\<close>, \<^verbatim>\<open>toString\<close>, \<^verbatim>\<open>__proto__\<close>, ...) are not part
  of the model, so property names are taken to differ from those.
\<close>

datatype jsnum = NaN | PosInf | NegInf | Fin rat

datatype jsval =
    Undefined
  | Null
  | Bool bool
  | Num jsnum
  | Str string
  | Arr "jsval list"
  | Obj "(string \<times> jsval) list"

type_synonym obj = "(string \<times> jsval) list"

fun isFinite :: "jsnum \<Rightarrow> bool" where
  "isFinite (Fin _) = True"
| "isFinite _ = False"

text \<open>Truthiness, as \<^verbatim>\<open>if (x)\<close>, \<^verbatim>\<open>!x\<close> and \<^verbatim>\<open>x || y\<close> read it.\<close>

fun truthy :: "jsval \<Rightarrow> bool" where
  "truthy Undefined = False"
| "truthy Null = False"
| "truthy (Bool b) = b"
| "truthy (Num (Fin q)) = (q \<noteq> 0)"
| "truthy (Num NaN) = False"
| "truthy (Num _) = True"
| "truthy (Str s) = (s \<noteq> [])"
| "truthy (Arr _) = True"
| "truthy (Obj _) = True"

text \<open>\<^verbatim>\<open>isArray\<close> and \<^verbatim>\<open>isObject\<close> (lines 90-95).\<close>

fun isArray :: "jsval \<Rightarrow> bool" where
  "isArray (Arr _) = True"
| "isArray _ = False"

fun isObject :: "jsval \<Rightarrow> bool" where
  "isObject (Obj _) = True"
| "isObject _ = False"

fun props :: "jsval \<Rightarrow> obj" where
  "props (Obj ob) = ob"
| "props _ = []"

subsection \<open>Own properties\<close>

text \<open>
  \<open>obj_get ob k\<close> is \<^verbatim>\<open>ob[k]\<close> (\<^verbatim>\<open>undefined\<close> for a missing key), \<open>obj_keys\<close> is
  \<^verbatim>\<open>Object.keys\<close>, \<open>obj_has\<close> is the \<^verbatim>\<open>in\<close> operator on own properties and \<open>obj_set k v ob\<close>
  is the assignment \<^verbatim>\<open>ob[k] = v\<close>. An assignment to an existing key keeps the key's place; a
  new key that is an array index (a canonical decimal numeral below \<open>2^32 - 1\<close>) is
  enumerated among the index keys in ascending order, before every other key; any other new
  key comes last.
\<close>

definition digit_val :: "char \<Rightarrow> nat option" where
  "digit_val c = map_of (zip ''0123456789'' [0, 1, 2, 3, 4, 5, 6, 7, 8, 9]) c"

fun decimal_val :: "nat \<Rightarrow> string \<Rightarrow> nat option" where
  "decimal_val n [] = Some n"
| "decimal_val n (c # cs) =
     (case digit_val c of None \<Rightarrow> None | Some d \<Rightarrow> decimal_val (10 * n + d) cs)"

definition array_index :: "string \<Rightarrow> nat option" where
  "array_index k =
     (if k = [] \<or> (hd k = CHR ''0'' \<and> tl k \<noteq> []) then None
      else case decimal_val 0 k of
             None \<Rightarrow> None
           | Some n \<Rightarrow> if n < 4294967295 then Some n else None)"

definition obj_get :: "obj \<Rightarrow> string \<Rightarrow> jsval" where
  "obj_get ob k = (case map_of ob k of None \<Rightarrow> Undefined | Some v \<Rightarrow> v)"

definition obj_keys :: "obj \<Rightarrow> string list" where
  "obj_keys ob = remdups (map fst ob)"

definition obj_has :: "obj \<Rightarrow> string \<Rightarrow> bool" where
  "obj_has ob k = (k \<in> set (obj_keys ob))"

fun obj_insert :: "string \<Rightarrow> jsval \<Rightarrow> obj \<Rightarrow> obj" where
  "obj_insert k v [] = [(k, v)]"
| "obj_insert k v ((k', v') # rest) =
     (case array_index k of
        None \<Rightarrow> (k', v') # obj_insert k v rest
      | Some n \<Rightarrow>
          (case array_index k' of
             None \<Rightarrow> (k, v) # (k', v') # rest
           | Some m \<Rightarrow> if m < n then (k', v') # obj_insert k v rest
                       else (k, v) # (k', v') # rest))"

fun obj_replace :: "string \<Rightarrow> jsval \<Rightarrow> obj \<Rightarrow> obj" where
  "obj_replace k v [] = []"
| "obj_replace k v ((k', v') # rest) =
     (if k' = k then (k, v) # rest else (k', v') # obj_replace k v rest)"

definition obj_set :: "string \<Rightarrow> jsval \<Rightarrow> obj \<Rightarrow> obj" where
  "obj_set k v ob = (if obj_has ob k then obj_replace k v ob else obj_insert k v ob)"

section \<open>Config merging\<close>

text \<open>
  \<^verbatim>\<open>mergeConfigs(...configObjects)\<close> (lines 30-44). \<open>mergeConfigs_from\<close> is the outer loop
  over the config objects and \<open>merge_keys\<close> the inner loop over \<^verbatim>\<open>Object.keys(configObject)\<close>;
  both carry \<^verbatim>\<open>formattedConfigObject\<close>. The recursive call \<^verbatim>\<open>mergeConfigs(option, override)\<close>
  starts again from the empty object. The nesting depth of the values bounds the recursion.
\<close>

fun dval :: "jsval \<Rightarrow> nat" and dobj :: "obj \<Rightarrow> nat" where
  "dval (Obj ob) = Suc (dobj ob)"
| "dval _ = 0"
| "dobj [] = 0"
| "dobj ((k, v) # rest) = max (dval v) (dobj rest)"

fun dobjs :: "obj list \<Rightarrow> nat" where
  "dobjs [] = 0"
| "dobjs (c # cs) = max (dobj c) (dobjs cs)"

function mergeConfigs_from :: "obj \<Rightarrow> obj list \<Rightarrow> obj"
  and merge_keys :: "obj \<Rightarrow> obj \<Rightarrow> string list \<Rightarrow> obj" where
  "mergeConfigs_from formatted [] = formatted"
| "mergeConfigs_from formatted (configObject # rest) =
     mergeConfigs_from (merge_keys formatted configObject (obj_keys configObject)) rest"
| "merge_keys formatted configObject [] = formatted"
| "merge_keys formatted configObject (key # ks) =
     (let option = obj_get formatted key;
          override = obj_get configObject key
      in if isObject option \<and> isObject override
         then merge_keys
                (obj_set key (Obj (mergeConfigs_from [] [props option, props override])) formatted)
                configObject ks
         else merge_keys (obj_set key override formatted) configObject ks)"
  by pat_completeness auto

lemma dval_map_of: "map_of ob k = Some v \<Longrightarrow> dval v \<le> dobj ob"
  by (induction ob) (auto split: if_splits)

lemma dval_obj_get: "dval (obj_get ob k) \<le> dobj ob"
  by (auto simp: obj_get_def dval_map_of split: option.splits)

lemma dobj_props: "isObject v \<Longrightarrow> dobj (props v) < dval v"
  by (cases v) auto

lemma dobj_obj_insert: "dobj (obj_insert k v ob) = max (dval v) (dobj ob)"
  by (induction ob) (auto split: option.splits)

lemma dobj_obj_replace: "dobj (obj_replace k v ob) \<le> max (dval v) (dobj ob)"
  by (induction ob) auto

lemma dobj_obj_set: "dobj (obj_set k v ob) \<le> max (dval v) (dobj ob)"
  by (simp add: obj_set_def dobj_obj_insert dobj_obj_replace)

lemma dobj_merge_dom:
  "mergeConfigs_from_merge_keys_dom (Inl (formatted, cs)) \<Longrightarrow>
     dobj (mergeConfigs_from formatted cs) \<le> max (dobj formatted) (dobjs cs)"
  "mergeConfigs_from_merge_keys_dom (Inr (formatted, c, ks)) \<Longrightarrow>
     dobj (merge_keys formatted c ks) \<le> max (dobj formatted) (dobj c)"
proof (induction formatted cs and formatted c ks rule: mergeConfigs_from_merge_keys.pinduct)
  case (1 formatted)
  then show ?case by (simp add: mergeConfigs_from.psimps)
next
  case (2 formatted configObject rest)
  then show ?case by (auto simp: mergeConfigs_from.psimps)
next
  case (3 formatted configObject)
  then show ?case by (simp add: merge_keys.psimps)
next
  case (4 formatted configObject key ks)
  let ?option = "obj_get formatted key"
  let ?override = "obj_get configObject key"
  show ?case
  proof (cases "isObject ?option \<and> isObject ?override")
    case True
    let ?r = "mergeConfigs_from [] [props ?option, props ?override]"
    have r: "dobj ?r \<le> max (dobj (props ?option)) (dobj (props ?override))"
      using 4(2)[OF refl refl True] by simp
    have a: "dobj (props ?option) < dobj formatted"
      using dobj_props[of ?option] dval_obj_get[of formatted key] True by linarith
    have b: "dobj (props ?override) < dobj configObject"
      using dobj_props[of ?override] dval_obj_get[of configObject key] True by linarith
    have le1: "dobj (obj_set key (Obj ?r) formatted) \<le> max (dobj formatted) (dobj configObject)"
      using dobj_obj_set[of key "Obj ?r" formatted] r a b by simp
    have le2: "dobj (merge_keys (obj_set key (Obj ?r) formatted) configObject ks)
        \<le> max (dobj (obj_set key (Obj ?r) formatted)) (dobj configObject)"
      using 4(3)[OF refl refl True] .
    have eq: "merge_keys formatted configObject (key # ks)
        = merge_keys (obj_set key (Obj ?r) formatted) configObject ks"
      using True 4(1) by (simp add: merge_keys.psimps Let_def)
    show ?thesis unfolding eq using le1 le2 by (simp add: max_def split: if_splits)
  next
    case False
    have le1: "dobj (obj_set key ?override formatted) \<le> max (dobj formatted) (dobj configObject)"
      using dobj_obj_set[of key ?override formatted] dval_obj_get[of configObject key] by linarith
    have le2: "dobj (merge_keys (obj_set key ?override formatted) configObject ks)
        \<le> max (dobj (obj_set key ?override formatted)) (dobj configObject)"
      using 4(4)[OF refl refl False] .
    have eq: "merge_keys formatted configObject (key # ks)
        = merge_keys (obj_set key ?override formatted) configObject ks"
      using False 4(1) by (auto simp: merge_keys.psimps Let_def)
    show ?thesis unfolding eq using le1 le2 by (simp add: max_def split: if_splits)
  qed
qed

lemma lex3_less:
  "a < a' \<or> (a = a' \<and> (b < b' \<or> (b = b' \<and> c < c'))) \<Longrightarrow>
     ((a, b, c), (a', b', c')) \<in> less_than <*lex*> less_than <*lex*> less_than"
  for a a' b b' c c' :: nat
  by auto

termination mergeConfigs_from
proof (relation "inv_image (less_than <*lex*> less_than <*lex*> less_than)
     (\<lambda>x. case x of Inl (acc, cs) \<Rightarrow> (max (dobj acc) (dobjs cs), Suc 0, length cs)
               | Inr (acc, c, ks) \<Rightarrow> (max (dobj acc) (dobj c), 0, length ks))", goal_cases)
  case 1
  then show ?case by (intro wf_inv_image wf_lex_prod wf_less_than)
next
  case (2 formatted configObject rest)
  have "max (dobj formatted) (dobj configObject)
      \<le> max (dobj formatted) (dobjs (configObject # rest))"
    by simp
  then show ?case
    unfolding in_inv_image sum.case prod.case by (intro lex3_less) auto
next
  case (3 formatted configObject rest)
  have "dobj (merge_keys formatted configObject (obj_keys configObject))
      \<le> max (dobj formatted) (dobj configObject)"
    using dobj_merge_dom(2)[OF 3] .
  then have "max (dobj (merge_keys formatted configObject (obj_keys configObject))) (dobjs rest)
      \<le> max (dobj formatted) (dobjs (configObject # rest))"
    by auto
  then show ?case
    unfolding in_inv_image sum.case prod.case by (intro lex3_less) auto
next
  case (4 formatted configObject key ks x xa)
  have "dobj (props x) < dobj formatted" "dobj (props xa) < dobj configObject"
    using 4 dobj_props[of x] dobj_props[of xa] dval_obj_get[of formatted key]
      dval_obj_get[of configObject key]
    by simp_all
  then have "max (dobj []) (dobjs [props x, props xa]) < max (dobj formatted) (dobj configObject)"
    by auto
  then show ?case
    unfolding in_inv_image sum.case prod.case by (intro lex3_less) auto
next
  case (5 formatted configObject key ks x xa)
  let ?r = "mergeConfigs_from [] [props x, props xa]"
  have "dobj (props x) < dobj formatted" "dobj (props xa) < dobj configObject"
    using 5(1-3) dobj_props[of x] dobj_props[of xa] dval_obj_get[of formatted key]
      dval_obj_get[of configObject key]
    by simp_all
  moreover have "dobj ?r \<le> max (dobj (props x)) (dobj (props xa))"
    using dobj_merge_dom(1)[OF 5(4)] by simp
  ultimately have "dval (Obj ?r) \<le> max (dobj formatted) (dobj configObject)"
    by auto
  then have "dobj (obj_set key (Obj ?r) formatted) \<le> max (dobj formatted) (dobj configObject)"
    using dobj_obj_set[of key "Obj ?r" formatted] by linarith
  then have "max (dobj (obj_set key (Obj ?r) formatted)) (dobj configObject)
      \<le> max (dobj formatted) (dobj configObject)"
    by simp
  then show ?case
    unfolding in_inv_image sum.case prod.case by (intro lex3_less) auto
next
  case (6 formatted configObject key ks x xa)
  have "dval xa \<le> dobj configObject"
    using 6(2) dval_obj_get[of configObject key] by simp
  then have "dobj (obj_set key xa formatted) \<le> max (dobj formatted) (dobj configObject)"
    using dobj_obj_set[of key xa formatted] by linarith
  then have "max (dobj (obj_set key xa formatted)) (dobj configObject)
      \<le> max (dobj formatted) (dobj configObject)"
    by simp
  then show ?case
    unfolding in_inv_image sum.case prod.case by (intro lex3_less) auto
qed

definition mergeConfigs :: "obj list \<Rightarrow> obj" where
  "mergeConfigs configObjects = mergeConfigs_from [] configObjects"

text \<open>
  What one assignment of the inner loop stores under a key: the override, unless the value
  accumulated so far and the override are both non-array objects, which are merged.
\<close>

definition merged_value :: "jsval \<Rightarrow> jsval \<Rightarrow> jsval" where
  "merged_value option override =
     (if isObject option \<and> isObject override
      then Obj (mergeConfigs [props option, props override]) else override)"

section \<open>Dataset normalisation\<close>

text \<open>
  \<^verbatim>\<open>String.prototype.trim\<close> strips white space and line terminators from both ends; below
  code unit 256 these are tab, line feed, vertical tab, form feed, carriage return, space
  and no-break space.
\<close>

definition is_space :: "char \<Rightarrow> bool" where
  "is_space c = (c \<in> set [CHR 0x09, CHR 0x0A, CHR 0x0B, CHR 0x0C, CHR 0x0D, CHR 0x20, CHR 0xA0])"

definition trim :: "string \<Rightarrow> string" where
  "trim s = rev (dropWhile is_space (rev (dropWhile is_space s)))"

text \<open>
  A schema property (\<^verbatim>\<open>SchemaProperty\<close>) carries its \<^verbatim>\<open>type\<close>. The host's conversion
  \<^verbatim>\<open>Number(string)\<close> rounds to a floating-point number and is a parameter of the functions
  that call it.
\<close>

datatype SchemaProperty = SchemaProperty (ptype: string)

type_synonym Schema = "(string \<times> SchemaProperty option) list"

type_synonym DOMStringMap = "(string \<times> string) list"

definition property_type :: "SchemaProperty option \<Rightarrow> string option" where
  "property_type property = (case property of None \<Rightarrow> None | Some p \<Rightarrow> Some (ptype p))"

text \<open>\<^verbatim>\<open>normaliseString(value, property)\<close> (lines 1-24); \<open>None\<close> is \<^verbatim>\<open>undefined\<close>.\<close>

definition normaliseString ::
  "(string \<Rightarrow> jsnum) \<Rightarrow> string option \<Rightarrow> SchemaProperty option \<Rightarrow> jsval" where
  "normaliseString Number value property =
     (let trimmedValue = (case value of None \<Rightarrow> [] | Some v \<Rightarrow> if v \<noteq> [] then trim v else []);
          outputType = property_type property;
          outputType =
            (if outputType = None \<or> outputType = Some []
             then (let outputType =
                         (if trimmedValue \<in> set [''true'', ''false'']
                          then Some ''boolean'' else outputType)
                   in if length trimmedValue > 0 \<and> isFinite (Number trimmedValue)
                      then Some ''number'' else outputType)
             else outputType)
      in if outputType = Some ''boolean'' then Bool (trimmedValue = ''true'')
         else if outputType = Some ''number'' then Num (Number trimmedValue)
         else (case value of None \<Rightarrow> Undefined | Some v \<Rightarrow> Str v))"

text \<open>\<^verbatim>\<open>key.split('.')\<close>: the parts between the dots, at least one.\<close>

fun split_dot :: "string \<Rightarrow> string list" where
  "split_dot [] = [[]]"
| "split_dot (c # cs) =
     (if c = CHR ''.'' then [] # split_dot cs
      else (case split_dot cs of [] \<Rightarrow> [[c]] | p # ps \<Rightarrow> (c # p) # ps))"

text \<open>
  \<^verbatim>\<open>extractConfigByNamespace\<close> (lines 45-70). The inner loop walks \<^verbatim>\<open>current\<close> down the key
  parts, creating objects on the way, and assigns at the last part; \<open>assign_parts\<close> returns
  the object \<^verbatim>\<open>current\<close> points to after the walk below it, so the assignments made through
  the alias show in the enclosing objects. \<^verbatim>\<open>current\<close> is always an object, so the test
  \<^verbatim>\<open>typeof current === 'object'\<close> holds throughout.
\<close>

fun assign_parts ::
  "(string \<Rightarrow> jsnum) \<Rightarrow> bool \<Rightarrow> string \<Rightarrow> string list \<Rightarrow> obj \<Rightarrow> obj" where
  "assign_parts Number is_namespace value [] current = current"
| "assign_parts Number is_namespace value [name] current =
     (if \<not> is_namespace then obj_set name (normaliseString Number (Some value) None) current
      else current)"
| "assign_parts Number is_namespace value (name # rest) current =
     (if \<not> isObject (obj_get current name)
      then obj_set name (Obj (assign_parts Number is_namespace value rest [])) current
      else obj_set name
             (Obj (assign_parts Number is_namespace value rest (props (obj_get current name))))
             current)"

definition extractConfigByNamespace ::
  "(string \<Rightarrow> jsnum) \<Rightarrow> Schema \<Rightarrow> DOMStringMap \<Rightarrow> string \<Rightarrow> jsval" where
  "extractConfigByNamespace Number schema dataset namespace =
     (let property = (case map_of schema namespace of None \<Rightarrow> None | Some p \<Rightarrow> p)
      in if property_type property \<noteq> Some ''object'' then Undefined
         else
           (let newObject =
                  fold (\<lambda>(key, value) newObject.
                          assign_parts Number (key = namespace) value (split_dot key) newObject)
                       dataset [(namespace, Obj [])]
            in obj_get newObject namespace))"

text \<open>\<^verbatim>\<open>normaliseDataset(Component, dataset)\<close> (lines 127-138), for the component's schema.\<close>

definition normaliseDataset :: "(string \<Rightarrow> jsnum) \<Rightarrow> Schema \<Rightarrow> DOMStringMap \<Rightarrow> obj" where
  "normaliseDataset Number schema dataset =
     fold (\<lambda>(field, property) out.
             (let out = (if field \<in> set (map fst dataset)
                         then obj_set field
                                (normaliseString Number (map_of dataset field) property) out
                         else out)
              in if property_type property = Some ''object''
                 then obj_set field (extractConfigByNamespace Number schema dataset field) out
                 else out))
          schema []"

text \<open>\<^verbatim>\<open>Button.defaults\<close> and \<^verbatim>\<open>Button.schema\<close> (lines 427-456).\<close>

definition Button_defaults :: obj where
  "Button_defaults =
     [(''preventDoubleClick'', Bool False),
      (''enableValidation'', Bool False),
      (''validationSelectors'', Obj []),
      (''validationMessages'', Obj []),
      (''focusOnError'', Bool True),
      (''showErrorSummary'', Bool True)]"

definition Button_schema :: Schema where
  "Button_schema =
     [(''preventDoubleClick'', Some (SchemaProperty ''boolean'')),
      (''enableValidation'', Some (SchemaProperty ''boolean'')),
      (''validationSelectors'', Some (SchemaProperty ''object'')),
      (''validationMessages'', Some (SchemaProperty ''object'')),
      (''focusOnError'', Some (SchemaProperty ''boolean'')),
      (''showErrorSummary'', Some (SchemaProperty ''boolean''))]"

text \<open>
  Examples are evaluated with \<open>Number_digits\<close> in the place of the host's \<^verbatim>\<open>Number\<close>: on a
  string of decimal digits it is the number the digits denote, as the host's is for
  integers below \<open>2^53\<close>, and on the other strings used here (none of them a numeric
  literal) it is \<^verbatim>\<open>NaN\<close>, as the host's is.
\<close>

definition Number_digits :: "string \<Rightarrow> jsnum" where
  "Number_digits s = (case decimal_val 0 s of None \<Rightarrow> NaN | Some n \<Rightarrow> Fin (of_nat n))"

section \<open>The document\<close>

text \<open>
  The page is a tree of nodes. A node carries what the component reads and writes of an
  element: its identity, tag name, whether it is an \<^verbatim>\<open>HTMLElement\<close>, its class list, its
  other attributes, and the properties \<^verbatim>\<open>type\<close>, \<^verbatim>\<open>value\<close> (\<open>None\<close> where the element has
  none, as a \<^verbatim>\<open>div\<close>) and \<^verbatim>\<open>checked\<close>. Markup assigned through \<^verbatim>\<open>innerHTML\<close> is kept as
  the parts of the template it was built from (with the white space between tags left
  out); the elements the host would parse from it are not part of the tree. Elements are
  referred to by identity, as object references are; \<open>document\<close> is the tree that holds the
  button and its form.
\<close>

datatype html_part = Markup string | Interpolated jsval

record Element =
  nid :: nat
  tagName :: string
  isHTMLElement :: bool
  classList :: "string list"
  attributes :: "(string \<times> string) list"
  el_type :: "string option"
  el_value :: "string option"
  el_checked :: bool
  innerHTML :: "html_part list"

datatype node = Node (elem: Element) (childNodes: "node list")

fun nodes_of :: "node \<Rightarrow> node list" where
  "nodes_of (Node e cs) = Node e cs # concat (map nodes_of cs)"

definition descendants :: "node \<Rightarrow> node list" where
  "descendants n = concat (map nodes_of (childNodes n))"

definition find_node :: "nat \<Rightarrow> node \<Rightarrow> node option" where
  "find_node i doc = find (\<lambda>n. nid (elem n) = i) (nodes_of doc)"

definition descendants_of :: "nat \<Rightarrow> node \<Rightarrow> node list" where
  "descendants_of i doc = (case find_node i doc of None \<Rightarrow> [] | Some n \<Rightarrow> descendants n)"

definition hasClass :: "string \<Rightarrow> node \<Rightarrow> bool" where
  "hasClass c n = (c \<in> set (classList (elem n)))"

definition getAttribute :: "string \<Rightarrow> node \<Rightarrow> string option" where
  "getAttribute name n = map_of (attributes (elem n)) name"

text \<open>
  \<^verbatim>\<open>closest\<close> walks from the element up through its ancestors; \<open>path_to\<close> is the path from
  the root of the tree down to the element (empty when the element is not in the tree).
\<close>

fun path_to :: "nat \<Rightarrow> node \<Rightarrow> node list" where
  "path_to i (Node e cs) =
     (if nid e = i then [Node e cs]
      else (case filter (\<lambda>p. p \<noteq> []) (map (path_to i) cs) of
              [] \<Rightarrow> []
            | p # _ \<Rightarrow> Node e cs # p))"

definition closest :: "(node \<Rightarrow> bool) \<Rightarrow> nat \<Rightarrow> node \<Rightarrow> node option" where
  "closest P i doc = find P (rev (path_to i doc))"

text \<open>Mutations of the tree: a change to one element, \<^verbatim>\<open>remove()\<close>, \<^verbatim>\<open>insertBefore\<close>.\<close>

fun update_node :: "nat \<Rightarrow> (Element \<Rightarrow> Element) \<Rightarrow> node \<Rightarrow> node" where
  "update_node i f (Node e cs) = Node (if nid e = i then f e else e) (map (update_node i f) cs)"

fun remove_node :: "nat \<Rightarrow> node \<Rightarrow> node" where
  "remove_node i (Node e cs) =
     Node e (map (remove_node i) (filter (\<lambda>c. nid (elem c) \<noteq> i) cs))"

fun insert_at :: "node \<Rightarrow> nat \<Rightarrow> node list \<Rightarrow> node list" where
  "insert_at new ref [] = []"
| "insert_at new ref (c # cs) =
     (if nid (elem c) = ref then new # c # cs else c # insert_at new ref cs)"

fun insert_before :: "node \<Rightarrow> nat \<Rightarrow> node \<Rightarrow> node" where
  "insert_before new ref (Node e cs) = Node e (insert_at new ref (map (insert_before new ref) cs))"

fun prepend_child :: "node \<Rightarrow> nat \<Rightarrow> node \<Rightarrow> node" where
  "prepend_child new i (Node e cs) =
     Node e ((if nid e = i then [new] else []) @ map (prepend_child new i) cs)"

definition classList_add :: "string \<Rightarrow> Element \<Rightarrow> Element" where
  "classList_add c e = (if c \<in> set (classList e) then e else e\<lparr>classList := classList e @ [c]\<rparr>)"

definition classList_remove :: "string \<Rightarrow> Element \<Rightarrow> Element" where
  "classList_remove c e = e\<lparr>classList := removeAll c (classList e)\<rparr>"

definition setAttribute :: "string \<Rightarrow> string \<Rightarrow> Element \<Rightarrow> Element" where
  "setAttribute name v e =
     e\<lparr>attributes :=
         (if name \<in> set (map fst (attributes e))
          then map (\<lambda>(k, w). if k = name then (k, v) else (k, w)) (attributes e)
          else attributes e @ [(name, v)])\<rparr>"

text \<open>
  The page: the document with \<^verbatim>\<open>document.body\<close>, the listeners registered with
  \<^verbatim>\<open>addEventListener\<close> (target and event type), the element that last received \<^verbatim>\<open>focus()\<close>,
  the supply of identities for \<^verbatim>\<open>document.createElement\<close>, and the timers of \<^verbatim>\<open>window\<close>:
  a clock in milliseconds, the pending timers with their due times, and the last handle
  given out (handles are positive).
\<close>

record page =
  document :: node
  body :: "nat option"
  listeners :: "(nat \<times> string) list"
  activeElement :: "nat option"
  next_nid :: nat
  clock :: nat
  timers :: "(nat \<times> nat) list"
  last_handle :: nat

definition createElement :: "string \<Rightarrow> page \<Rightarrow> Element \<times> page" where
  "createElement tag p =
     (\<lparr>nid = next_nid p, tagName = tag, isHTMLElement = True, classList = [], attributes = [],
        el_type = None, el_value = None, el_checked = False, innerHTML = []\<rparr>,
      p\<lparr>next_nid := Suc (next_nid p)\<rparr>)"

definition setTimeout :: "nat \<Rightarrow> page \<Rightarrow> nat \<times> page" where
  "setTimeout delay p =
     (let handle = Suc (last_handle p)
      in (handle, p\<lparr>last_handle := handle, timers := timers p @ [(handle, clock p + delay)]\<rparr>))"

record Event =
  defaultPrevented :: bool

definition preventDefault :: "Event \<Rightarrow> Event" where
  "preventDefault event = event\<lparr>defaultPrevented := True\<rparr>"

section \<open>The component\<close>

text \<open>
  The errors the code can raise: the three of the component's constructor, and the host's
  \<^verbatim>\<open>TypeError\<close> (a method called on \<^verbatim>\<open>undefined\<close>) and \<^verbatim>\<open>SyntaxError\<close> (a selector the host
  rejects). Messages are left out.
\<close>

datatype error = ElementError | InitError | SupportError | TypeError | SyntaxError

text \<open>
  The host's selector engine is a parameter: for a selector it either rejects it or gives
  the test that tells, in a document, whether an element matches. \<^verbatim>\<open>querySelector\<close> on an
  element is the first descendant in tree order that matches. The class selectors the code
  writes itself are read as membership in the class list.
\<close>

type_synonym css = "jsval \<Rightarrow> (node \<Rightarrow> node \<Rightarrow> bool) option"

definition querySelector :: "css \<Rightarrow> jsval \<Rightarrow> nat \<Rightarrow> node \<Rightarrow> error + node option" where
  "querySelector engine selector i doc =
     (case engine selector of
        None \<Rightarrow> Inl SyntaxError
      | Some matches \<Rightarrow> Inr (find (matches doc) (descendants_of i doc)))"

subsection \<open>Construction\<close>

text \<open>\<^verbatim>\<open>isSupported\<close> (lines 84-89) and \<^verbatim>\<open>isInitialised\<close> (lines 71-73).\<close>

definition isSupported :: "page \<Rightarrow> bool" where
  "isSupported p =
     (case body p of
        None \<Rightarrow> False
      | Some b \<Rightarrow> (case find_node b (document p) of
                     None \<Rightarrow> False
                   | Some scope \<Rightarrow> hasClass ''govuk-frontend-supported'' scope))"

definition isInitialised :: "node \<Rightarrow> string \<Rightarrow> bool" where
  "isInitialised root' moduleName =
     (isHTMLElement (elem root') \<and> getAttribute (''data-'' @ moduleName @ ''-init'') root' \<noteq> None)"

definition Button_moduleName :: string where
  "Button_moduleName = ''govuk-button''"

text \<open>
  The constructor of \<^verbatim>\<open>GOVUKFrontendComponent\<close> (lines 197-217) with \<^verbatim>\<open>checkInitialised\<close> and
  \<^verbatim>\<open>checkSupport\<close>. \<open>$root\<close> is \<^verbatim>\<open>null\<close> or an element of the document. The module name is a
  string, so the first check of the source never fires. The result is the error thrown or
  the root element kept in \<^verbatim>\<open>_$root\<close>, with the page as the constructor leaves it.
\<close>

definition lookup_root :: "nat option \<Rightarrow> page \<Rightarrow> node option" where
  "lookup_root root' p = (case root' of None \<Rightarrow> None | Some i \<Rightarrow> find_node i (document p))"

definition GOVUKFrontendComponent_constructor ::
  "string \<Rightarrow> nat option \<Rightarrow> page \<Rightarrow> (error + nat) \<times> page" where
  "GOVUKFrontendComponent_constructor moduleName root' p =
     (case lookup_root root' p of
        None \<Rightarrow> (Inl ElementError, p)
      | Some n \<Rightarrow>
          if \<not> isHTMLElement (elem n) then (Inl ElementError, p)
          else if \<not> isSupported p then (Inl SupportError, p)
          else if moduleName \<noteq> [] \<and> isInitialised n moduleName then (Inl InitError, p)
          else (Inr (nid (elem n)),
                p\<lparr>document :=
                    update_node (nid (elem n)) (setAttribute (''data-'' @ moduleName @ ''-init'') [])
                      (document p)\<rparr>))"

text \<open>
  \<^verbatim>\<open>element.dataset\<close>: the attributes named \<^verbatim>\<open>data-*\<close> without upper-case letters, each under
  the rest of its name with every hyphen that precedes a lower-case letter dropped and the
  letter put in upper case.
\<close>

definition lower_letters :: string where
  "lower_letters = ''abcdefghijklmnopqrstuvwxyz''"

definition upper_letters :: string where
  "upper_letters = ''ABCDEFGHIJKLMNOPQRSTUVWXYZ''"

definition to_upper :: "char \<Rightarrow> char" where
  "to_upper c = (case map_of (zip lower_letters upper_letters) c of None \<Rightarrow> c | Some u \<Rightarrow> u)"

fun camel :: "string \<Rightarrow> string" where
  "camel (c # d # cs) =
     (if c = CHR ''-'' \<and> d \<in> set lower_letters then to_upper d # camel cs
      else c # camel (d # cs))"
| "camel cs = cs"

definition dataset_of :: "(string \<times> string) list \<Rightarrow> DOMStringMap" where
  "dataset_of attrs =
     map (\<lambda>(k, v). (camel (drop 5 k), v))
       (filter (\<lambda>(k, v). take 5 k = ''data-'' \<and> set (drop 5 k) \<inter> set upper_letters = {}) attrs)"

record Button =
  config :: obj
  debounceFormSubmitTimer :: "nat option"
  root_el :: nat
  form_el :: "nat option"

definition addEventListener :: "nat \<Rightarrow> string \<Rightarrow> page \<Rightarrow> page" where
  "addEventListener target type p = p\<lparr>listeners := listeners p @ [(target, type)]\<rparr>"

text \<open>The constructor of \<^verbatim>\<open>Button\<close> (lines 254-262).\<close>

definition Button_constructor ::
  "(string \<Rightarrow> jsnum) \<Rightarrow> nat option \<Rightarrow> obj \<Rightarrow> page \<Rightarrow> (error + Button) \<times> page" where
  "Button_constructor Number root' cfg p =
     (case GOVUKFrontendComponent_constructor Button_moduleName root' p of
        (Inl e, p) \<Rightarrow> (Inl e, p)
      | (Inr r, p) \<Rightarrow>
          (let dataset = (case find_node r (document p) of
                            None \<Rightarrow> []
                          | Some n \<Rightarrow> dataset_of (attributes (elem n)));
               this = \<lparr>config = mergeConfigs [Button_defaults, cfg,
                                    normaliseDataset Number Button_schema dataset],
                       debounceFormSubmitTimer = None,
                       root_el = r,
                       form_el = map_option (\<lambda>n. nid (elem n))
                                   (closest (\<lambda>n. tagName (elem n) = ''form'') r (document p))\<rparr>;
               p = addEventListener r ''keydown'' p;
               p = addEventListener r ''click'' p
           in (Inr this, p)))"

subsection \<open>Debounce\<close>

definition DEBOUNCE_TIMEOUT_IN_SECONDS :: nat where
  "DEBOUNCE_TIMEOUT_IN_SECONDS = 1"

text \<open>
  \<^verbatim>\<open>debounce(event)\<close> (lines 396-407). The last component of the result is \<open>False\<close> where
  the source returns \<^verbatim>\<open>false\<close> and \<open>True\<close> where it returns \<^verbatim>\<open>undefined\<close>. A timer handle is a
  number, truthy unless zero.
\<close>

definition debounce :: "Button \<Rightarrow> page \<Rightarrow> Event \<Rightarrow> Button \<times> page \<times> Event \<times> bool" where
  "debounce this p event =
     (if \<not> truthy (obj_get (config this) ''preventDoubleClick'') then (this, p, event, True)
      else if (case debounceFormSubmitTimer this of None \<Rightarrow> False | Some h \<Rightarrow> h \<noteq> 0)
      then (this, p, preventDefault event, False)
      else (let (handle, p) = setTimeout (DEBOUNCE_TIMEOUT_IN_SECONDS * 1000) p
            in (this\<lparr>debounceFormSubmitTimer := Some handle\<rparr>, p, event, True)))"

text \<open>
  The host lets time pass and runs the callbacks of the timers that have come due; every
  timer of the page is a debounce timer of the button, whose callback resets
  \<^verbatim>\<open>debounceFormSubmitTimer\<close> to \<^verbatim>\<open>null\<close>.
\<close>

definition advance :: "nat \<Rightarrow> Button \<Rightarrow> page \<Rightarrow> Button \<times> page" where
  "advance ms this p =
     (let now = clock p + ms;
          due = filter (\<lambda>(handle, due_at). due_at \<le> now) (timers p);
          pending = filter (\<lambda>(handle, due_at). \<not> due_at \<le> now) (timers p)
      in ((if due = [] then this else this\<lparr>debounceFormSubmitTimer := None\<rparr>),
          p\<lparr>clock := now, timers := pending\<rparr>))"

subsection \<open>Validation\<close>

record ValidationError =
  err_field :: string
  err_element :: nat
  err_message :: jsval

text \<open>
  \<^verbatim>\<open>validateElement\<close> (lines 315-324). The selector \<^verbatim>\<open>input[name="..."]:checked\<close> is built
  from the name; for a name without quote, backslash, line break or null character it
  selects the checked checkbox and radio inputs with that name, and for any other name the
  text goes to the host's engine. Reading \<^verbatim>\<open>.value.trim()\<close> on an element without a value
  raises \<^verbatim>\<open>TypeError\<close>.
\<close>

definition selector_safe :: "string \<Rightarrow> bool" where
  "selector_safe name =
     (set name \<inter> set [CHR 0x22, CHR 0x5C, CHR 0x0A, CHR 0x0C, CHR 0x0D, CHR 0x00] = {})"

definition input_name_checked :: "string \<Rightarrow> node \<Rightarrow> bool" where
  "input_name_checked name n =
     (tagName (elem n) = ''input'' \<and> getAttribute ''name'' n = Some name \<and>
      (el_type (elem n) = Some ''checkbox'' \<or> el_type (elem n) = Some ''radio'') \<and>
      el_checked (elem n))"

definition query_checked :: "css \<Rightarrow> string \<Rightarrow> nat \<Rightarrow> node \<Rightarrow> error + node option" where
  "query_checked engine name form doc =
     (if selector_safe name then Inr (find (input_name_checked name) (descendants_of form doc))
      else querySelector engine
             (Str (''input[name='' @ [CHR 0x22] @ name @ [CHR 0x22] @ '']:checked'')) form doc)"

definition validateElement :: "css \<Rightarrow> nat \<Rightarrow> node \<Rightarrow> node \<Rightarrow> error + bool" where
  "validateElement engine form doc element =
     (if el_type (elem element) = Some ''checkbox'' then Inr (el_checked (elem element))
      else if el_type (elem element) = Some ''radio'' then
        (case getAttribute ''name'' element of
           None \<Rightarrow> Inr False
         | Some name \<Rightarrow>
             if name = [] then Inr False
             else (case query_checked engine name form doc of
                     Inl e \<Rightarrow> Inl e
                   | Inr found \<Rightarrow> Inr (found \<noteq> None)))
      else (case el_value (elem element) of
              None \<Rightarrow> Inl TypeError
            | Some v \<Rightarrow> Inr (trim v \<noteq> [])))"

text \<open>
  Reading a property of a config value and enumerating its entries. The constructor leaves
  objects under \<^verbatim>\<open>validationSelectors\<close> and \<^verbatim>\<open>validationMessages\<close> (the normalised dataset
  always sets both to objects), so the indices of strings and arrays are not modelled.
\<close>

fun get_prop :: "jsval \<Rightarrow> string \<Rightarrow> jsval" where
  "get_prop (Obj ob) k = obj_get ob k"
| "get_prop _ k = Undefined"

fun Object_entries :: "jsval \<Rightarrow> (string \<times> jsval) list" where
  "Object_entries (Obj ob) = map (\<lambda>k. (k, obj_get ob k)) (obj_keys ob)"
| "Object_entries _ = []"

definition error_message :: "obj \<Rightarrow> string \<Rightarrow> jsval" where
  "error_message cfg field =
     (let validationMessages = obj_get cfg ''validationMessages'';
          configured = (if validationMessages = Undefined \<or> validationMessages = Null
                        then Undefined else get_prop validationMessages field)
      in if truthy configured then configured else Str ''This field is required'')"

text \<open>The loop of \<^verbatim>\<open>handleFormSubmit\<close> over the configured selectors (lines 286-299).\<close>

fun validate_fields ::
  "css \<Rightarrow> obj \<Rightarrow> nat \<Rightarrow> node \<Rightarrow> (string \<times> jsval) list \<Rightarrow> bool \<Rightarrow> ValidationError list
     \<Rightarrow> error + (bool \<times> ValidationError list)" where
  "validate_fields engine cfg form doc [] isValid errors = Inr (isValid, errors)"
| "validate_fields engine cfg form doc ((field, selector) # rest) isValid errors =
     (case querySelector engine selector form doc of
        Inl e \<Rightarrow> Inl e
      | Inr None \<Rightarrow> validate_fields engine cfg form doc rest isValid errors
      | Inr (Some element) \<Rightarrow>
          (case validateElement engine form doc element of
             Inl e \<Rightarrow> Inl e
           | Inr valid \<Rightarrow>
               if \<not> valid
               then validate_fields engine cfg form doc rest False
                      (errors @ [\<lparr>err_field = field, err_element = nid (elem element),
                                  err_message = error_message cfg field\<rparr>])
               else validate_fields engine cfg form doc rest isValid errors))"

subsection \<open>Error decorations\<close>

text \<open>\<^verbatim>\<open>clearErrors\<close> (lines 325-332), on the form of the button.\<close>

definition clearErrors :: "nat \<Rightarrow> page \<Rightarrow> page" where
  "clearErrors form p =
     (let doc = document p;
          doc = fold (\<lambda>group. update_node (nid (elem group))
                                (classList_remove ''govuk-form-group--error''))
                  (filter (hasClass ''govuk-form-group--error'') (descendants_of form doc)) doc;
          doc = fold (\<lambda>error. remove_node (nid (elem error)))
                  (filter (hasClass ''govuk-error-message'') (descendants_of form doc)) doc;
          doc = (case find (hasClass ''govuk-error-summary'') (descendants_of form doc) of
                   None \<Rightarrow> doc
                 | Some errorSummary \<Rightarrow> remove_node (nid (elem errorSummary)) doc)
      in p\<lparr>document := doc\<rparr>)"

text \<open>The body of the \<^verbatim>\<open>forEach\<close> of \<^verbatim>\<open>showErrors\<close> (lines 339-354), for one error.\<close>

definition show_error :: "ValidationError \<Rightarrow> page \<Rightarrow> page" where
  "show_error err p =
     (case closest (hasClass ''govuk-form-group'') (err_element err) (document p) of
        None \<Rightarrow> p
      | Some formGroup \<Rightarrow>
          (let p = p\<lparr>document := update_node (nid (elem formGroup))
                                    (classList_add ''govuk-form-group--error'') (document p)\<rparr>;
               (error, p) = createElement ''p'' p;
               error = error\<lparr>classList := [''govuk-error-message''],
                              innerHTML := [Markup ''<span class=govuk-visually-hidden>Error:</span> '',
                                            Interpolated (err_message err)]\<rparr>
           in case find (\<lambda>n. hasClass ''govuk-input'' n \<or> hasClass ''govuk-fieldset'' n)
                     (descendants_of (nid (elem formGroup)) (document p)) of
                None \<Rightarrow> p
              | Some field \<Rightarrow>
                  p\<lparr>document := insert_before (Node error []) (nid (elem field)) (document p)\<rparr>))"

text \<open>\<^verbatim>\<open>createErrorSummary\<close> (lines 364-385).\<close>

definition createErrorSummary :: "nat \<Rightarrow> ValidationError list \<Rightarrow> page \<Rightarrow> page" where
  "createErrorSummary form errors p =
     (let (summary, p) = createElement ''div'' p;
          summary = summary\<lparr>classList := [''govuk-error-summary'']\<rparr>;
          summary = setAttribute ''data-module'' ''govuk-error-summary'' summary;
          summary = summary\<lparr>innerHTML :=
            [Markup (''<div role=alert><h2 class=govuk-error-summary__title>There is a problem</h2>''
                     @ ''<div class=govuk-error-summary__body>''
                     @ ''<ul class=govuk-list govuk-error-summary__list>'')]
            @ concat (map (\<lambda>err. [Markup ''<li>'', Interpolated (err_message err), Markup ''</li>''])
                        errors)
            @ [Markup ''</ul></div></div>'']\<rparr>
      in p\<lparr>document := prepend_child (Node summary []) form (document p)\<rparr>)"

text \<open>\<^verbatim>\<open>showErrors\<close> (lines 338-358).\<close>

definition showErrors :: "Button \<Rightarrow> nat \<Rightarrow> ValidationError list \<Rightarrow> page \<Rightarrow> page" where
  "showErrors this form errors p =
     (let p = fold show_error errors p
      in if truthy (obj_get (config this) ''showErrorSummary'') \<and> length errors > 0
         then createErrorSummary form errors p
         else p)"

text \<open>\<^verbatim>\<open>element.focus()\<close>: the page records the element as the one focused.\<close>

definition focus :: "nat \<Rightarrow> page \<Rightarrow> page" where
  "focus i p = p\<lparr>activeElement := Some i\<rparr>"

subsection \<open>Click handling\<close>

text \<open>
  \<^verbatim>\<open>handleFormSubmit\<close> (lines 281-307), called with the form the button has. The result is
  the error thrown, if any, with the page and the event as they are then.
  \<open>validationSelectors_of\<close> is \<^verbatim>\<open>this.config.validationSelectors || {}\<close>.
\<close>

definition validationSelectors_of :: "obj \<Rightarrow> jsval" where
  "validationSelectors_of cfg =
     (if truthy (obj_get cfg ''validationSelectors'') then obj_get cfg ''validationSelectors''
      else Obj [])"

definition handleFormSubmit ::
  "css \<Rightarrow> Button \<Rightarrow> nat \<Rightarrow> page \<Rightarrow> Event \<Rightarrow> error option \<times> page \<times> Event" where
  "handleFormSubmit engine this form p event =
     (let p = clearErrors form p;
          validationSelectors = validationSelectors_of (config this)
      in case validate_fields engine (config this) form (document p)
                (Object_entries validationSelectors) True [] of
           Inl e \<Rightarrow> (Some e, p, event)
         | Inr (isValid, errors) \<Rightarrow>
             if \<not> isValid
             then (let event = preventDefault event;
                       p = showErrors this form errors p
                   in if truthy (obj_get (config this) ''focusOnError'') \<and> length errors > 0
                      then (None, focus (err_element (hd errors)) p, event)
                      else (None, p, event))
             else (None, p, event))"

text \<open>
  \<^verbatim>\<open>handleClick\<close> (lines 268-275): the debounce, then the statement that submits through
  the validation (\<open>submit_if_enabled\<close>, lines 272-274).
\<close>

definition submit_if_enabled ::
  "css \<Rightarrow> Button \<Rightarrow> page \<Rightarrow> Event \<Rightarrow> error option \<times> Button \<times> page \<times> Event" where
  "submit_if_enabled engine this p event =
     (if truthy (obj_get (config this) ''enableValidation'') \<and> form_el this \<noteq> None \<and>
         (case find_node (root_el this) (document p) of
            None \<Rightarrow> False
          | Some r \<Rightarrow> getAttribute ''type'' r = Some ''submit'')
      then (case form_el this of
              None \<Rightarrow> (None, this, p, event)
            | Some form \<Rightarrow>
                (let (thrown, p, event) = handleFormSubmit engine this form p event
                 in (thrown, this, p, event)))
      else (None, this, p, event))"

definition handleClick ::
  "css \<Rightarrow> Button \<Rightarrow> page \<Rightarrow> Event \<Rightarrow> error option \<times> Button \<times> page \<times> Event" where
  "handleClick engine this p event =
     (let (this, p, event, continue) = debounce this p event
      in if \<not> continue then (None, this, p, event)
         else submit_if_enabled engine this p event)"

text \<open>
  An instance of the selector engine for examples: it knows the ID selectors \<^verbatim>\<open>#name\<close>,
  which select the elements whose \<^verbatim>\<open>id\<close> attribute is the name, and rejects every other
  selector.
\<close>

fun id_engine :: css where
  "id_engine (Str (c # name)) =
     (if c = CHR ''#'' \<and> name \<noteq> [] then Some (\<lambda>doc n. getAttribute ''id'' n = Some name) else None)"
| "id_engine _ = None"

section \<open>Observations and example pages\<close>

text \<open>
  \<open>error_summaries\<close> are the identities of the elements of a document that carry the class
  \<^verbatim>\<open>govuk-error-summary\<close>, \<open>error_messages\<close> those of the elements with the class
  \<^verbatim>\<open>govuk-error-message\<close>, in tree order.
\<close>

definition error_summaries :: "node \<Rightarrow> nat set" where
  "error_summaries doc =
     set (map (\<lambda>n. nid (elem n)) (filter (hasClass ''govuk-error-summary'') (nodes_of doc)))"

definition error_messages :: "node \<Rightarrow> nat list" where
  "error_messages doc =
     map (\<lambda>n. nid (elem n)) (filter (hasClass ''govuk-error-message'') (nodes_of doc))"

text \<open>
  The pages the examples run on. The first is a form with one required text input in a form
  group and a submit button:
  \<^verbatim>\<open><body class="govuk-frontend-supported"><form><div class="govuk-form-group">\<close>
  \<^verbatim>\<open><input class="govuk-input" id="name" value=""></div><button type="submit"></form>\<close>.
\<close>

definition html_el :: "nat \<Rightarrow> string \<Rightarrow> string list \<Rightarrow> (string \<times> string) list \<Rightarrow> Element" where
  "html_el i tag classes attrs =
     \<lparr>nid = i, tagName = tag, isHTMLElement = True, classList = classes, attributes = attrs,
      el_type = None, el_value = None, el_checked = False, innerHTML = []\<rparr>"

definition input_el ::
  "nat \<Rightarrow> string \<Rightarrow> string list \<Rightarrow> (string \<times> string) list \<Rightarrow> string \<Rightarrow> bool \<Rightarrow> Element" where
  "input_el i type classes attrs v c =
     (html_el i ''input'' classes attrs)\<lparr>el_type := Some type, el_value := Some v, el_checked := c\<rparr>"

definition name_input :: node where
  "name_input = Node (input_el 13 ''text'' [''govuk-input''] [(''id'', ''name'')] [] False) []"

definition submit_button :: node where
  "submit_button =
     Node ((html_el 14 ''button'' [''govuk-button'']
              [(''type'', ''submit''), (''data-module'', ''govuk-button''),
               (''data-govuk-button-init'', [])])
             \<lparr>el_type := Some ''submit'', el_value := Some []\<rparr>) []"

definition form_doc :: node where
  "form_doc =
     Node (html_el 10 ''body'' [''govuk-frontend-supported''] [])
       [Node (html_el 11 ''form'' [] [])
          [Node (html_el 12 ''div'' [''govuk-form-group''] []) [name_input],
           submit_button]]"

definition form_page :: page where
  "form_page =
     \<lparr>document = form_doc, body = Some 10, listeners = [(14, ''keydown''), (14, ''click'')],
      activeElement = None, next_nid = 15, clock = 0, timers = [], last_handle = 0\<rparr>"

definition button_config :: "bool \<Rightarrow> bool \<Rightarrow> bool \<Rightarrow> obj \<Rightarrow> obj" where
  "button_config preventDoubleClick focusOnError showErrorSummary validationSelectors =
     [(''preventDoubleClick'', Bool preventDoubleClick),
      (''enableValidation'', Bool True),
      (''validationSelectors'', Obj validationSelectors),
      (''validationMessages'', Obj []),
      (''focusOnError'', Bool focusOnError),
      (''showErrorSummary'', Bool showErrorSummary)]"

definition button_with :: "obj \<Rightarrow> nat \<Rightarrow> nat \<Rightarrow> Button" where
  "button_with cfg r f = \<lparr>config = cfg, debounceFormSubmitTimer = None, root_el = r, form_el = Some f\<rparr>"

definition name_error :: ValidationError where
  "name_error = \<lparr>err_field = ''name'', err_element = 13, err_message = Str ''This field is required''\<rparr>"

definition click :: Event where
  "click = \<lparr>defaultPrevented = False\<rparr>"

text \<open>
  The same page before the button is constructed, and the config passed to the constructor.
\<close>

definition fresh_button :: node where
  "fresh_button =
     Node ((html_el 14 ''button'' [''govuk-button'']
              [(''type'', ''submit''), (''data-module'', ''govuk-button'')])
             \<lparr>el_type := Some ''submit'', el_value := Some []\<rparr>) []"

definition fresh_page :: page where
  "fresh_page =
     \<lparr>document =
        Node (html_el 10 ''body'' [''govuk-frontend-supported''] [])
          [Node (html_el 11 ''form'' [] [])
             [Node (html_el 12 ''div'' [''govuk-form-group''] []) [name_input], fresh_button]],
      body = Some 10, listeners = [], activeElement = None, next_nid = 15, clock = 0, timers = [],
      last_handle = 0\<rparr>"

definition passed_config :: obj where
  "passed_config =
     [(''enableValidation'', Bool True),
      (''validationSelectors'', Obj [(''name'', Str ''#name'')])]"

text \<open>A form of radio buttons and a checkbox.\<close>

definition radio_a :: node where
  "radio_a = Node (input_el 12 ''radio'' [] [(''name'', [])] ''a'' False) []"

definition radio_b :: node where
  "radio_b = Node (input_el 13 ''radio'' [] [(''name'', [])] ''b'' True) []"

definition radio_c :: node where
  "radio_c = Node (input_el 14 ''radio'' [] [(''id'', ''red''), (''name'', ''colour'')] ''red'' False) []"

definition radio_d :: node where
  "radio_d = Node (input_el 15 ''radio'' [] [(''name'', ''colour'')] ''blue'' True) []"

definition terms_box :: node where
  "terms_box = Node (input_el 16 ''checkbox'' [] [(''id'', ''terms'')] ''yes'' False) []"

definition survey_doc :: node where
  "survey_doc = Node (html_el 11 ''form'' [] []) [radio_a, radio_b, radio_c, radio_d, terms_box]"

text \<open>A page whose button is already initialised, without and with browser support.\<close>

definition init_button :: node where
  "init_button = Node (html_el 11 ''button'' [] [(''data-govuk-button-init'', [])]) []"

definition svg_root :: node where
  "svg_root = Node ((html_el 12 ''svg'' [] [])\<lparr>isHTMLElement := False\<rparr>) []"

definition init_page :: "string list \<Rightarrow> page" where
  "init_page body_classes =
     \<lparr>document = Node (html_el 10 ''body'' body_classes []) [init_button, svg_root],
      body = Some 10, listeners = [], activeElement = None, next_nid = 13, clock = 0, timers = [],
      last_handle = 0\<rparr>"

text \<open>
  A form that lies inside a form group, next to an input of that group:
  \<^verbatim>\<open><div class="govuk-form-group"><input class="govuk-input" id="other">\<close>
  \<^verbatim>\<open><form><input id="name" value=""><button type="submit"></button></form></div>\<close>.
\<close>

definition outer_page :: page where
  "outer_page =
     \<lparr>document =
        Node (html_el 10 ''body'' [''govuk-frontend-supported''] [])
          [Node (html_el 11 ''div'' [''govuk-form-group''] [])
             [Node (input_el 12 ''text'' [''govuk-input''] [(''id'', ''other'')] [] False) [],
              Node (html_el 16 ''form'' [] []) [name_input, submit_button]]],
      body = Some 10, listeners = [(14, ''keydown''), (14, ''click'')], activeElement = None,
      next_nid = 17, clock = 0, timers = [], last_handle = 0\<rparr>"

text \<open>A button that only debounces, and the button of the form inside the form group.\<close>

definition debounced_button :: Button where
  "debounced_button =
     \<lparr>config = [(''preventDoubleClick'', Bool True), (''enableValidation'', Bool False)],
      debounceFormSubmitTimer = None, root_el = 14, form_el = Some 11\<rparr>"

definition outer_button :: Button where
  "outer_button = button_with (button_config False True True [(''name'', Str ''#name'')]) 14 16"

lemmas example_defs = html_el_def input_el_def name_input_def submit_button_def form_doc_def
  form_page_def button_config_def button_with_def name_error_def click_def
  radio_a_def radio_b_def radio_c_def radio_d_def terms_box_def survey_doc_def
  init_button_def svg_root_def init_page_def outer_page_def fresh_button_def fresh_page_def
  passed_config_def

lemmas dom_defs = find_node_def descendants_of_def descendants_def hasClass_def getAttribute_def
  closest_def classList_add_def classList_remove_def setAttribute_def createElement_def
  querySelector_def

lemmas handler_defs = handleFormSubmit_def clearErrors_def showErrors_def show_error_def
  createErrorSummary_def focus_def validationSelectors_of_def obj_keys_def obj_get_def
  preventDefault_def validateElement_def query_checked_def selector_safe_def
  input_name_checked_def error_message_def trim_def Let_def

section \<open>Config merge\<close>

lemma set_obj_keys: "set (obj_keys ob) = fst ` set ob"
  by (simp add: obj_keys_def)

lemma obj_has_map_of: "obj_has ob k = (map_of ob k \<noteq> None)"
  by (simp add: obj_has_def set_obj_keys map_of_eq_None_iff)

lemma map_of_obj_replace:
  "map_of ob k \<noteq> None \<Longrightarrow> map_of (obj_replace k v ob) = (map_of ob)(k \<mapsto> v)"
  by (induction ob) (auto simp: fun_eq_iff)

lemma map_of_obj_insert:
  "map_of ob k = None \<Longrightarrow> map_of (obj_insert k v ob) = (map_of ob)(k \<mapsto> v)"
  by (induction ob) (auto simp: fun_eq_iff split: option.splits if_splits)

lemma map_of_obj_set: "map_of (obj_set k v ob) = (map_of ob)(k \<mapsto> v)"
  by (simp add: obj_set_def obj_has_map_of map_of_obj_replace map_of_obj_insert)

lemma obj_get_obj_set: "obj_get (obj_set k v ob) k' = (if k' = k then v else obj_get ob k')"
  by (simp add: obj_get_def map_of_obj_set)

lemma obj_has_obj_set: "obj_has (obj_set k v ob) k' = (k' = k \<or> obj_has ob k')"
  by (simp add: obj_has_map_of map_of_obj_set)

lemma obj_get_absent: "\<not> obj_has ob k \<Longrightarrow> obj_get ob k = Undefined"
  by (simp add: obj_has_map_of obj_get_def)

lemma obj_get_Nil [simp]: "obj_get [] k = Undefined"
  by (simp add: obj_get_def)

lemma obj_has_Nil [simp]: "obj_has [] k = False"
  by (simp add: obj_has_def obj_keys_def)

lemma merged_value_Undefined [simp]: "merged_value Undefined v = v"
  by (simp add: merged_value_def)

lemma merge_keys_Cons:
  "merge_keys formatted c (key # ks) =
     merge_keys (obj_set key (merged_value (obj_get formatted key) (obj_get c key)) formatted) c ks"
  by (simp add: Let_def merged_value_def mergeConfigs_def)

lemma obj_get_merge_keys:
  "distinct ks \<Longrightarrow>
   obj_get (merge_keys formatted c ks) k =
     (if k \<in> set ks then merged_value (obj_get formatted k) (obj_get c k)
      else obj_get formatted k)"
proof (induction ks arbitrary: formatted)
  case Nil
  then show ?case by simp
next
  case (Cons key ks)
  then show ?case
    by (simp only: merge_keys_Cons) (auto simp: obj_get_obj_set)
qed


lemma obj_get_merge_config:
  "obj_get (merge_keys formatted c (obj_keys c)) k =
     (if obj_has c k then merged_value (obj_get formatted k) (obj_get c k)
      else obj_get formatted k)"
  by (simp add: obj_get_merge_keys obj_keys_def obj_has_def)


lemma mergeConfigs_pair:
  "obj_get (mergeConfigs [option, override]) key =
     (if obj_has override key then merged_value (obj_get option key) (obj_get override key)
      else obj_get option key)"
  by (simp add: mergeConfigs_def obj_get_merge_config obj_get_absent)


section \<open>The config of a constructed button\<close>

lemma split_dot_nonempty: "split_dot key \<noteq> []"
  by (induction key) (auto split: list.splits)

lemma split_dot_single: "split_dot key = [name] \<Longrightarrow> key = name"
proof (induction key arbitrary: name)
  case Nil
  then show ?case by simp
next
  case (Cons c key)
  then show ?case
    using split_dot_nonempty[of key] by (auto split: if_splits list.splits)
qed

lemma assign_parts_keeps_object:
  assumes "isObject (obj_get current namespace)" and "parts = [namespace] \<longrightarrow> is_namespace"
  shows "isObject (obj_get (assign_parts Number is_namespace value parts current) namespace)"
proof (cases parts)
  case Nil
  then show ?thesis using assms by simp
next
  case (Cons name rest)
  show ?thesis
  proof (cases rest)
    case Nil
    then show ?thesis using assms Cons by (auto simp: obj_get_obj_set)
  next
    case (Cons name' rest')
    then show ?thesis using assms \<open>parts = name # rest\<close> by (auto simp: obj_get_obj_set)
  qed
qed

lemma extract_fold_object:
  "isObject (obj_get newObject namespace) \<Longrightarrow>
   isObject (obj_get
     (fold (\<lambda>(key, value) newObject.
              assign_parts Number (key = namespace) value (split_dot key) newObject)
        dataset newObject) namespace)"
proof (induction dataset arbitrary: newObject)
  case Nil
  then show ?case by simp
next
  case (Cons entry dataset)
  obtain key v where entry: "entry = (key, v)" by (cases entry)
  have "isObject (obj_get (assign_parts Number (key = namespace) v (split_dot key) newObject)
      namespace)"
    using Cons.prems split_dot_single[of key namespace]
    by (intro assign_parts_keeps_object) auto
  then show ?case
    using Cons.IH by (simp add: entry)
qed

lemma extractConfigByNamespace_object:
  "property_type (case map_of schema namespace of None \<Rightarrow> None | Some p \<Rightarrow> p) = Some ''object'' \<Longrightarrow>
   isObject (extractConfigByNamespace Number schema dataset namespace)"
  using extract_fold_object[of "[(namespace, Obj [])]" namespace Number dataset]
  by (simp add: extractConfigByNamespace_def Let_def obj_get_def)

lemma normaliseDataset_Button_objects:
  "obj_has (normaliseDataset Number Button_schema dataset) ''validationSelectors'' \<and>
   isObject (obj_get (normaliseDataset Number Button_schema dataset) ''validationSelectors'') \<and>
   obj_has (normaliseDataset Number Button_schema dataset) ''validationMessages'' \<and>
   isObject (obj_get (normaliseDataset Number Button_schema dataset) ''validationMessages'')"
proof -
  have "isObject (extractConfigByNamespace Number Button_schema dataset ''validationSelectors'')"
    "isObject (extractConfigByNamespace Number Button_schema dataset ''validationMessages'')"
    by (rule extractConfigByNamespace_object, simp add: Button_schema_def property_type_def)+
  then show ?thesis
    by (simp add: normaliseDataset_def Button_schema_def property_type_def Let_def
        obj_get_obj_set obj_has_obj_set)
qed

lemma merged_value_object: "isObject override \<Longrightarrow> isObject (merged_value option override)"
  by (simp add: merged_value_def)

text \<open>The config of a constructed button holds objects under both namespaces.\<close>

lemma Button_config_objects:
  assumes "Button_constructor Number root' cfg p = (Inr this, p')"
  shows "isObject (obj_get (config this) ''validationSelectors'') \<and>
         isObject (obj_get (config this) ''validationMessages'')"
proof -
  obtain dataset where "config this =
      mergeConfigs [Button_defaults, cfg, normaliseDataset Number Button_schema dataset]"
    using assms
    by (auto simp: Button_constructor_def Let_def addEventListener_def
        split: prod.splits sum.splits)
  then show ?thesis
    using normaliseDataset_Button_objects[of Number dataset]
    by (simp add: mergeConfigs_def obj_get_merge_config merged_value_object)
qed

section \<open>Coercion of dataset values\<close>

lemma trim_Nil [simp]: "trim [] = []"
  by (simp add: trim_def)



section \<open>What the handlers leave alone\<close>

lemma fold_show_error_inv:
  assumes "\<And>e q. P (show_error e q) = P q"
  shows "P (fold show_error errors p) = P p"
  using assms by (induction errors arbitrary: p) auto

lemma show_error_fields:
  "activeElement (show_error e p) = activeElement p"
  "timers (show_error e p) = timers p"
  "clock (show_error e p) = clock p"
  "last_handle (show_error e p) = last_handle p"
  "listeners (show_error e p) = listeners p"
  by (auto simp: show_error_def createElement_def Let_def split: option.splits prod.splits)

lemma clearErrors_fields:
  "activeElement (clearErrors f p) = activeElement p"
  "timers (clearErrors f p) = timers p"
  "clock (clearErrors f p) = clock p"
  "last_handle (clearErrors f p) = last_handle p"
  "listeners (clearErrors f p) = listeners p"
  "next_nid (clearErrors f p) = next_nid p"
  by (simp_all add: clearErrors_def Let_def)

lemma createErrorSummary_fields:
  "activeElement (createErrorSummary f es p) = activeElement p"
  "timers (createErrorSummary f es p) = timers p"
  "clock (createErrorSummary f es p) = clock p"
  "last_handle (createErrorSummary f es p) = last_handle p"
  "listeners (createErrorSummary f es p) = listeners p"
  by (simp_all add: createErrorSummary_def createElement_def Let_def split: prod.splits)

lemma showErrors_fields:
  "activeElement (showErrors this f es p) = activeElement p"
  "timers (showErrors this f es p) = timers p"
  "clock (showErrors this f es p) = clock p"
  "last_handle (showErrors this f es p) = last_handle p"
  "listeners (showErrors this f es p) = listeners p"
  by (simp_all add: showErrors_def Let_def createErrorSummary_fields
      fold_show_error_inv[where P = activeElement] fold_show_error_inv[where P = timers]
      fold_show_error_inv[where P = clock] fold_show_error_inv[where P = last_handle]
      fold_show_error_inv[where P = listeners] show_error_fields)

lemma validate_fields_isValid:
  "validate_fields engine cfg form doc entries isValid errors = Inr (v, es) \<Longrightarrow>
   isValid = (errors = []) \<Longrightarrow> v = (es = [])"
proof (induction entries arbitrary: isValid errors)
  case Nil
  then show ?case by auto
next
  case (Cons entry entries)
  obtain field selector where entry: "entry = (field, selector)" by (cases entry)
  show ?case
    using Cons.prems Cons.IH[of isValid errors] Cons.IH[of False]
    by (auto simp: entry split: sum.splits option.splits if_splits)
qed

lemma activeElement_handleFormSubmit:
  assumes "validate_fields engine (config this) form (document (clearErrors form p))
             (Object_entries (validationSelectors_of (config this))) True [] = Inr (isValid, errors)"
    and "errors \<noteq> []"
  shows "activeElement (fst (snd (handleFormSubmit engine this form p event))) =
           (if truthy (obj_get (config this) ''focusOnError'') then Some (err_element (hd errors))
            else activeElement p)"
proof -
  have "\<not> isValid"
    using validate_fields_isValid[OF assms(1)] assms(2) by simp
  then show ?thesis
    using assms
    by (simp add: handleFormSubmit_def Let_def focus_def showErrors_fields clearErrors_fields)
qed

lemma form_page_clear: "clearErrors 11 form_page = form_page"
  by (simp add: clearErrors_def example_defs dom_defs Let_def)

lemma form_page_validation:
  "validate_fields id_engine
     (button_config prevent focusOn summary [(''name'', Str ''#name'')]) 11
     (document (clearErrors 11 form_page))
     (Object_entries (validationSelectors_of
        (button_config prevent focusOn summary [(''name'', Str ''#name'')]))) True []
   = Inr (False, [name_error])"
  unfolding form_page_clear
  by (simp add: example_defs dom_defs handler_defs)

section \<open>Construction\<close>




lemma fresh_page_base:
  "GOVUKFrontendComponent_constructor Button_moduleName (Some 14) fresh_page
     = (Inr 14, form_page\<lparr>listeners := []\<rparr>)"
  by (simp add: GOVUKFrontendComponent_constructor_def lookup_root_def isSupported_def
      isInitialised_def Button_moduleName_def example_defs dom_defs)

lemma fresh_page_dataset:
  "normaliseDataset Number_digits Button_schema
     [(''module'', ''govuk-button''), (''govukButtonInit'', [])]
     = [(''validationSelectors'', Obj []), (''validationMessages'', Obj [])]"
  by (simp add: normaliseDataset_def Button_schema_def property_type_def normaliseString_def
      extractConfigByNamespace_def obj_set_def obj_has_def obj_keys_def obj_get_def
      array_index_def digit_val_def Let_def)

lemma fresh_page_config:
  "mergeConfigs [Button_defaults,
      [(''enableValidation'', Bool True), (''validationSelectors'', Obj [(''name'', Str ''#name'')])],
      [(''validationSelectors'', Obj []), (''validationMessages'', Obj [])]]
     = button_config False True True [(''name'', Str ''#name'')]"
  by (simp add: mergeConfigs_def Button_defaults_def button_config_def obj_set_def obj_has_def
      obj_keys_def obj_get_def array_index_def digit_val_def Let_def)

lemma form_page_dataset:
  "dataset_of [(''type'', ''submit''), (''data-module'', ''govuk-button''),
               (''data-govuk-button-init'', [])]
     = [(''module'', ''govuk-button''), (''govukButtonInit'', [])]"
  by (simp add: dataset_of_def lower_letters_def upper_letters_def to_upper_def)

text \<open>
  The button of the examples is the one the constructor builds on the fresh page, and
  \<open>form_page\<close> is the page the constructor leaves.
\<close>

lemma example_button_constructed:
  "Button_constructor Number_digits (Some 14) passed_config fresh_page
     = (Inr (button_with (button_config False True True [(''name'', Str ''#name'')]) 14 11),
        form_page)"
proof -
  have doc: "document form_page = form_doc"
    by (simp add: form_page_def)
  have root': "find_node 14 form_doc = Some submit_button"
    by (simp add: example_defs dom_defs)
  have attrs: "attributes (elem submit_button) =
      [(''type'', ''submit''), (''data-module'', ''govuk-button''), (''data-govuk-button-init'', [])]"
    by (simp add: example_defs)
  have form: "closest (\<lambda>n. tagName (elem n) = ''form'') 14 form_doc
      = Some (Node (html_el 11 ''form'' [] [])
                [Node (html_el 12 ''div'' [''govuk-form-group''] []) [name_input], submit_button])"
    by (simp add: example_defs dom_defs)
  show ?thesis
    by (simp add: Button_constructor_def fresh_page_base doc root' attrs form form_page_dataset
        fresh_page_dataset passed_config_def fresh_page_config button_with_def
        addEventListener_def Let_def)
       (simp add: form_page_def html_el_def)
qed

section \<open>Debounce\<close>

lemma handleFormSubmit_timers:
  "handleFormSubmit engine this form p event = (thrown, p', event') \<Longrightarrow>
   timers p' = timers p \<and> clock p' = clock p \<and> last_handle p' = last_handle p"
  by (auto simp: handleFormSubmit_def Let_def focus_def showErrors_fields clearErrors_fields
      split: sum.splits prod.splits if_splits)

lemma submit_if_enabled_timers:
  "submit_if_enabled engine this p event = (thrown, this', p', event') \<Longrightarrow>
   this' = this \<and> timers p' = timers p \<and> clock p' = clock p \<and> last_handle p' = last_handle p"
  by (auto simp: submit_if_enabled_def Let_def split: option.splits prod.splits if_splits
      dest: handleFormSubmit_timers)

lemma handleClick_idle:
  assumes "truthy (obj_get (config this) ''preventDoubleClick'')"
    and "debounceFormSubmitTimer this = None"
  shows "handleClick engine this p event =
           submit_if_enabled engine
             (this\<lparr>debounceFormSubmitTimer := Some (fst (setTimeout (DEBOUNCE_TIMEOUT_IN_SECONDS * 1000) p))\<rparr>)
             (snd (setTimeout (DEBOUNCE_TIMEOUT_IN_SECONDS * 1000) p)) event"
  using assms by (simp add: handleClick_def debounce_def Let_def split: prod.splits)

lemma handleClick_pending:
  assumes "truthy (obj_get (config this) ''preventDoubleClick'')"
    and "debounceFormSubmitTimer this = Some h" and "h \<noteq> 0"
  shows "handleClick engine this p event = (None, this, p, preventDefault event)"
  using assms by (simp add: handleClick_def debounce_def Let_def)

text \<open>
  Claim C2. Let a button with \<^verbatim>\<open>preventDoubleClick\<close> set and no timer pending be clicked;
  the click starts the debounce timer. A click that arrives less than a second later finds
  the timer pending and is suppressed: the event's default is prevented and the handler
  returns at once, leaving button and page as they are. A click that arrives after the
  timer has expired finds \<^verbatim>\<open>debounceFormSubmitTimer\<close> reset to \<^verbatim>\<open>null\<close>, starts a new timer
  and goes on to the submit handling.
\<close>

theorem debounce_window:
  assumes "truthy (obj_get (config this) ''preventDoubleClick'')"
    and "debounceFormSubmitTimer this = None" and "timers p = []"
    and "handleClick engine this p event = (thrown, this1, p1, event1)"
  shows "(ms < DEBOUNCE_TIMEOUT_IN_SECONDS * 1000 \<longrightarrow>
            debounceFormSubmitTimer (fst (advance ms this1 p1)) \<noteq> None \<and>
            handleClick engine (fst (advance ms this1 p1)) (snd (advance ms this1 p1)) event' =
              (None, fst (advance ms this1 p1), snd (advance ms this1 p1), preventDefault event')) \<and>
         (DEBOUNCE_TIMEOUT_IN_SECONDS * 1000 \<le> ms \<longrightarrow>
            debounceFormSubmitTimer (fst (advance ms this1 p1)) = None \<and>
            handleClick engine (fst (advance ms this1 p1)) (snd (advance ms this1 p1)) event' =
              submit_if_enabled engine
                ((fst (advance ms this1 p1))
                   \<lparr>debounceFormSubmitTimer :=
                      Some (fst (setTimeout (DEBOUNCE_TIMEOUT_IN_SECONDS * 1000)
                                  (snd (advance ms this1 p1))))\<rparr>)
                (snd (setTimeout (DEBOUNCE_TIMEOUT_IN_SECONDS * 1000) (snd (advance ms this1 p1))))
                event')"
proof -
  let ?d = "DEBOUNCE_TIMEOUT_IN_SECONDS * 1000"
  let ?h = "Suc (last_handle p)"
  have first: "submit_if_enabled engine (this\<lparr>debounceFormSubmitTimer := Some ?h\<rparr>)
      (p\<lparr>last_handle := ?h, timers := [(?h, clock p + ?d)]\<rparr>) event = (thrown, this1, p1, event1)"
    using handleClick_idle[OF assms(1,2), of engine p event] assms(3,4)
    by (simp add: setTimeout_def Let_def)
  have this1: "this1 = this\<lparr>debounceFormSubmitTimer := Some ?h\<rparr>"
    and p1: "timers p1 = [(?h, clock p + ?d)]" "clock p1 = clock p"
    using submit_if_enabled_timers[OF first] by simp_all
  have cfg: "truthy (obj_get (config (fst (advance ms this1 p1))) ''preventDoubleClick'')"
    using assms(1) by (simp add: advance_def Let_def this1)
  show ?thesis
  proof (intro conjI impI)
    assume "ms < ?d"
    then have t: "debounceFormSubmitTimer (fst (advance ms this1 p1)) = Some ?h"
      by (simp add: advance_def Let_def this1 p1)
    then show "debounceFormSubmitTimer (fst (advance ms this1 p1)) \<noteq> None" by simp
    show "handleClick engine (fst (advance ms this1 p1)) (snd (advance ms this1 p1)) event' =
        (None, fst (advance ms this1 p1), snd (advance ms this1 p1), preventDefault event')"
      using handleClick_pending[OF cfg t] by simp
  next
    assume "?d \<le> ms"
    then show t: "debounceFormSubmitTimer (fst (advance ms this1 p1)) = None"
      by (simp add: advance_def Let_def this1 p1)
    show "handleClick engine (fst (advance ms this1 p1)) (snd (advance ms this1 p1)) event' =
        submit_if_enabled engine
          ((fst (advance ms this1 p1))
             \<lparr>debounceFormSubmitTimer :=
                Some (fst (setTimeout ?d (snd (advance ms this1 p1))))\<rparr>)
          (snd (setTimeout ?d (snd (advance ms this1 p1)))) event'"
      using handleClick_idle[OF cfg t] .
  qed
qed

text \<open>
  The theorem at work: a first click at time 0, a click 400 ms later (suppressed), and a
  click after the timer has fired at 1000 ms (handled, with a new timer due at 2000 ms).
\<close>

lemma first_click:
  "handleClick id_engine debounced_button form_page click =
     (None, debounced_button\<lparr>debounceFormSubmitTimer := Some (Suc 0)\<rparr>,
      form_page\<lparr>last_handle := Suc 0, timers := [(Suc 0, 1000)]\<rparr>, click)"
  by (simp add: handleClick_def debounce_def submit_if_enabled_def setTimeout_def
      DEBOUNCE_TIMEOUT_IN_SECONDS_def debounced_button_def obj_get_def form_page_def Let_def)

theorem debounce_window_witness:
  "handleClick id_engine debounced_button form_page click =
     (None, debounced_button\<lparr>debounceFormSubmitTimer := Some (Suc 0)\<rparr>,
      form_page\<lparr>last_handle := Suc 0, timers := [(Suc 0, 1000)]\<rparr>, click) \<and>
   handleClick id_engine
     (debounced_button\<lparr>debounceFormSubmitTimer := Some (Suc 0)\<rparr>)
     (form_page\<lparr>last_handle := Suc 0, timers := [(Suc 0, 1000)], clock := 400\<rparr>) click =
     (None, debounced_button\<lparr>debounceFormSubmitTimer := Some (Suc 0)\<rparr>,
      form_page\<lparr>last_handle := Suc 0, timers := [(Suc 0, 1000)], clock := 400\<rparr>,
      preventDefault click) \<and>
   advance 1000 (debounced_button\<lparr>debounceFormSubmitTimer := Some (Suc 0)\<rparr>)
     (form_page\<lparr>last_handle := Suc 0, timers := [(Suc 0, 1000)]\<rparr>) =
     (debounced_button, form_page\<lparr>last_handle := Suc 0, timers := [], clock := 1000\<rparr>) \<and>
   handleClick id_engine debounced_button
     (form_page\<lparr>last_handle := Suc 0, timers := [], clock := 1000\<rparr>) click =
     submit_if_enabled id_engine (debounced_button\<lparr>debounceFormSubmitTimer := Some 2\<rparr>)
       (form_page\<lparr>last_handle := 2, timers := [(2, 2000)], clock := 1000\<rparr>) click"
proof -
  have prevent: "truthy (obj_get (config debounced_button) ''preventDoubleClick'')"
    by (simp add: debounced_button_def obj_get_def)
  have idle: "debounceFormSubmitTimer debounced_button = None" "timers form_page = []"
    by (simp_all add: debounced_button_def form_page_def)
  have early: "advance 400 (debounced_button\<lparr>debounceFormSubmitTimer := Some (Suc 0)\<rparr>)
      (form_page\<lparr>last_handle := Suc 0, timers := [(Suc 0, 1000)]\<rparr>) =
      (debounced_button\<lparr>debounceFormSubmitTimer := Some (Suc 0)\<rparr>,
       form_page\<lparr>last_handle := Suc 0, timers := [(Suc 0, 1000)], clock := 400\<rparr>)"
    by (simp add: advance_def Let_def form_page_def)
  have late: "advance 1000 (debounced_button\<lparr>debounceFormSubmitTimer := Some (Suc 0)\<rparr>)
      (form_page\<lparr>last_handle := Suc 0, timers := [(Suc 0, 1000)]\<rparr>) =
      (debounced_button, form_page\<lparr>last_handle := Suc 0, timers := [], clock := 1000\<rparr>)"
    by (simp add: advance_def Let_def form_page_def debounced_button_def)
  have next_timer: "setTimeout 1000
      (form_page\<lparr>last_handle := Suc 0, timers := [], clock := 1000\<rparr>) =
      (2, form_page\<lparr>last_handle := 2, timers := [(2, 2000)], clock := 1000\<rparr>)"
    by (simp add: setTimeout_def Let_def form_page_def)
  show ?thesis
    using debounce_window[OF prevent idle first_click, of 400 click]
      debounce_window[OF prevent idle first_click, of 1000 click]
    by (simp add: first_click early late next_timer DEBOUNCE_TIMEOUT_IN_SECONDS_def)
qed

section \<open>Validation of one element\<close>

text \<open>
  Claim C10. A radio element with no \<^verbatim>\<open>name\<close> attribute, or an empty one, is invalid
  whatever its own checked state and whatever else the form holds.
\<close>

theorem validateElement_radio_unnamed:
  "el_type (elem element) = Some ''radio'' \<Longrightarrow>
   getAttribute ''name'' element = None \<or> getAttribute ''name'' element = Some [] \<Longrightarrow>
   validateElement engine form doc element = Inr False"
  by (auto simp: validateElement_def)

text \<open>A checked radio button whose name is empty is reported invalid.\<close>

theorem validateElement_radio_unnamed_witness:
  "el_type (elem radio_b) = Some ''radio'' \<and> getAttribute ''name'' radio_b = Some [] \<and>
   el_checked (elem radio_b) \<and> validateElement id_engine 11 survey_doc radio_b = Inr False"
  using validateElement_radio_unnamed[of radio_b id_engine 11 survey_doc]
  by (simp add: example_defs getAttribute_def)





section \<open>Absent fields\<close>

lemma validate_fields_skip:
  "querySelector engine selector form doc = Inr None \<Longrightarrow>
   validate_fields engine cfg form doc (before @ (field, selector) # after) isValid errors =
   validate_fields engine cfg form doc (before @ after) isValid errors"
proof (induction before arbitrary: isValid errors)
  case Nil
  then show ?case by simp
next
  case (Cons entry before)
  obtain f s where entry: "entry = (f, s)" by (cases entry)
  show ?case
    using Cons by (simp add: entry split: sum.splits option.splits)
qed

lemma validate_fields_cong_messages:
  "(\<And>field. error_message cfg field = error_message cfg' field) \<Longrightarrow>
   validate_fields engine cfg form doc entries isValid errors =
   validate_fields engine cfg' form doc entries isValid errors"
proof (induction entries arbitrary: isValid errors)
  case Nil
  then show ?case by simp
next
  case (Cons entry entries)
  obtain f s where entry: "entry = (f, s)" by (cases entry)
  show ?case
    using Cons by (simp add: entry split: sum.splits option.splits)
qed

lemma map_of_distinct_entry:
  "distinct (map fst ob) \<Longrightarrow> (k, v) \<in> set ob \<Longrightarrow> map_of ob k = Some v"
  by simp

lemma Object_entries_Obj:
  assumes "distinct (map fst ob)"
  shows "Object_entries (Obj ob) = ob"
proof -
  have "map ((\<lambda>k. (k, obj_get ob k)) \<circ> fst) ob = ob"
  proof (rule map_idI)
    fix e assume "e \<in> set ob"
    then have "map_of ob (fst e) = Some (snd e)"
      using assms by (metis map_of_is_SomeI prod.collapse)
    then show "((\<lambda>k. (k, obj_get ob k)) \<circ> fst) e = e"
      by (simp add: obj_get_def)
  qed
  then show ?thesis
    using assms by (simp add: obj_keys_def distinct_remdups_id)
qed

lemma Object_entries_keys: "distinct (map fst (Object_entries v))"
  by (cases v) (simp_all add: obj_keys_def comp_def)

text \<open>
  Claim C9. A configured selector that matches no element of the form when the button is
  clicked is skipped: the handler behaves exactly as it does for the config without that
  entry (\<open>this'\<close>), so the field adds no error and no decoration; and when it is the only
  configured field, the click only clears the old decorations and the event is not
  cancelled, so the field counts as valid.
\<close>

theorem handleFormSubmit_absent_field:
  assumes "Object_entries (validationSelectors_of (config this)) = before @ (field, selector) # after"
    and "config this' = obj_set ''validationSelectors'' (Obj (before @ after)) (config this)"
    and "querySelector engine selector form (document (clearErrors form p)) = Inr None"
  shows "handleFormSubmit engine this form p event = handleFormSubmit engine this' form p event \<and>
         (before = [] \<and> after = [] \<longrightarrow>
            handleFormSubmit engine this form p event = (None, clearErrors form p, event))"
proof -
  have "distinct (map fst (before @ (field, selector) # after))"
    using Object_entries_keys[of "validationSelectors_of (config this)"] assms(1) by simp
  then have "distinct (map fst (before @ after))"
    by auto
  then have "Object_entries (Obj (before @ after)) = before @ after"
    by (rule Object_entries_Obj)
  then have entries': "Object_entries (validationSelectors_of (config this')) = before @ after"
    by (simp add: assms(2) validationSelectors_of_def obj_get_obj_set)
  have msg: "error_message (config this') f = error_message (config this) f" for f
    by (simp add: error_message_def assms(2) obj_get_obj_set)
  have flags: "obj_get (config this') ''showErrorSummary'' = obj_get (config this) ''showErrorSummary''"
    "obj_get (config this') ''focusOnError'' = obj_get (config this) ''focusOnError''"
    by (simp_all add: assms(2) obj_get_obj_set)
  have loop: "validate_fields engine (config this) form (document (clearErrors form p))
        (before @ (field, selector) # after) True [] =
      validate_fields engine (config this') form (document (clearErrors form p))
        (before @ after) True []"
    using validate_fields_skip[OF assms(3)] validate_fields_cong_messages[of "config this'" "config this"] msg
    by simp
  have shown: "showErrors this' form es q = showErrors this form es q" for es q
    by (simp add: showErrors_def flags)
  have "handleFormSubmit engine this form p event = handleFormSubmit engine this' form p event"
    by (simp add: handleFormSubmit_def Let_def assms(1) entries' loop shown flags
        split: sum.splits prod.splits)
  moreover have "handleFormSubmit engine this form p event = (None, clearErrors form p, event)"
    if "before = []" "after = []"
    using that assms(3) by (simp add: handleFormSubmit_def Let_def assms(1))
  ultimately show ?thesis by blast
qed

text \<open>A selector that matches nothing in the example form.\<close>

theorem handleFormSubmit_absent_field_witness:
  "querySelector id_engine (Str ''#missing'') 11 (document (clearErrors 11 form_page)) = Inr None \<and>
   handleFormSubmit id_engine
     (button_with (button_config False True True [(''missing'', Str ''#missing'')]) 14 11) 11 form_page click
     = (None, form_page, click) \<and>
   handleFormSubmit id_engine
     (button_with (button_config False True True [(''missing'', Str ''#missing'')]) 14 11) 11 form_page click
     = handleFormSubmit id_engine
         (button_with (button_config False True True []) 14 11) 11 form_page click"
proof -
  let ?b = "button_with (button_config False True True [(''missing'', Str ''#missing'')]) 14 11"
  let ?b' = "button_with (button_config False True True []) 14 11"
  have entries: "Object_entries (validationSelectors_of (config ?b))
      = [] @ (''missing'', Str ''#missing'') # []"
    by (simp add: button_with_def button_config_def validationSelectors_of_def obj_get_def
        obj_keys_def)
  have config': "config ?b' = obj_set ''validationSelectors'' (Obj ([] @ [])) (config ?b)"
    by (simp add: button_with_def button_config_def obj_set_def obj_has_def obj_keys_def)
  have absent: "querySelector id_engine (Str ''#missing'') 11 (document (clearErrors 11 form_page))
      = Inr None"
    unfolding form_page_clear by (simp add: example_defs dom_defs)
  show ?thesis
    using handleFormSubmit_absent_field[OF entries config' absent, of click] absent
    by (auto simp: form_page_clear)
qed

section \<open>Focus on the first invalid field\<close>

text \<open>
  Claim C7, as amended. When the validation pass of a submit click produces at least one
  error, then after the prior decorations are cleared and the new ones rendered the element
  of the first entry of the error list is focused, provided \<^verbatim>\<open>config.focusOnError\<close> is
  truthy; when it is not, the focus stays where it was.
\<close>

theorem handleFormSubmit_focus:
  assumes "validate_fields engine (config this) form (document (clearErrors form p))
             (Object_entries (validationSelectors_of (config this))) True [] = Inr (isValid, errors)"
    and "errors \<noteq> []"
  shows "activeElement (fst (snd (handleFormSubmit engine this form p event))) =
           (if truthy (obj_get (config this) ''focusOnError'') then Some (err_element (hd errors))
            else activeElement p)"
  using activeElement_handleFormSubmit[OF assms] .

text \<open>The empty required input of the example form is focused.\<close>

theorem handleFormSubmit_focus_witness:
  "validate_fields id_engine (button_config False True True [(''name'', Str ''#name'')]) 11
     (document (clearErrors 11 form_page)) [(''name'', Str ''#name'')] True []
     = Inr (False, [name_error]) \<and>
   activeElement (fst (snd (handleFormSubmit id_engine
     (button_with (button_config False True True [(''name'', Str ''#name'')]) 14 11) 11 form_page click)))
     = Some 13"
  using handleFormSubmit_focus[where engine = id_engine
      and this = "button_with (button_config False True True [(''name'', Str ''#name'')]) 14 11"
      and form = 11 and p = form_page and isValid = False and errors = "[name_error]"
      and event = click]
    form_page_validation[of False True True]
  by (simp add: button_with_def button_config_def name_error_def validationSelectors_of_def
      obj_get_def obj_keys_def)

text \<open>
  Claim C7 as stated fails where \<^verbatim>\<open>focusOnError\<close> is \<^verbatim>\<open>false\<close>: the pass produces an error
  and nothing is focused.
\<close>

theorem handleFormSubmit_focus_counterexample:
  "validate_fields id_engine (button_config False False True [(''name'', Str ''#name'')]) 11
     (document (clearErrors 11 form_page)) [(''name'', Str ''#name'')] True []
     = Inr (False, [name_error]) \<and>
   activeElement (fst (snd (handleFormSubmit id_engine
     (button_with (button_config False False True [(''name'', Str ''#name'')]) 14 11) 11 form_page click)))
     = None"
  using activeElement_handleFormSubmit[where engine = id_engine
      and this = "button_with (button_config False False True [(''name'', Str ''#name'')]) 14 11"
      and form = 11 and p = form_page and isValid = False and errors = "[name_error]"
      and event = click]
    form_page_validation[of False False True]
  by (simp add: button_with_def button_config_def name_error_def validationSelectors_of_def
      obj_get_def obj_keys_def form_page_def)

section \<open>The error summary\<close>

text \<open>
  Clearing and the inline decorations change classes other than the summary's, remove
  nodes and insert error messages, so they add no summary.
\<close>

lemma nodes_of_update_node:
  "n' \<in> set (nodes_of (update_node i f doc)) \<Longrightarrow>
   \<exists>n \<in> set (nodes_of doc). elem n' = (if nid (elem n) = i then f (elem n) else elem n)"
proof (induction doc arbitrary: n')
  case (Node e cs)
  from Node.prems consider "elem n' = (if nid e = i then f e else e)"
    | c where "c \<in> set cs" "n' \<in> set (nodes_of (update_node i f c))"
    by auto
  then show ?case
  proof cases
    case 1
    then show ?thesis by (intro bexI[of _ "Node e cs"]) simp_all
  next
    case 2
    from Node.IH[OF 2] obtain n where "n \<in> set (nodes_of c)"
      "elem n' = (if nid (elem n) = i then f (elem n) else elem n)" by blast
    then show ?thesis using 2(1) by (intro bexI[of _ n]) auto
  qed
qed

lemma nodes_of_remove_node:
  "n' \<in> set (nodes_of (remove_node i doc)) \<Longrightarrow> \<exists>n \<in> set (nodes_of doc). elem n' = elem n"
proof (induction doc arbitrary: n')
  case (Node e cs)
  from Node.prems consider "elem n' = e"
    | c where "c \<in> set cs" "n' \<in> set (nodes_of (remove_node i c))"
    by auto
  then show ?case
  proof cases
    case 1
    then show ?thesis by (intro bexI[of _ "Node e cs"]) simp_all
  next
    case 2
    from Node.IH[OF 2] obtain n where "n \<in> set (nodes_of c)" "elem n' = elem n" by blast
    then show ?thesis using 2(1) by (intro bexI[of _ n]) auto
  qed
qed

lemma set_insert_at: "set (insert_at new ref cs) \<subseteq> insert new (set cs)"
  by (induction cs) auto

lemma nodes_of_insert_before:
  "n' \<in> set (nodes_of (insert_before new ref doc)) \<Longrightarrow>
   (\<exists>n \<in> set (nodes_of doc). elem n' = elem n) \<or> n' \<in> set (nodes_of new)"
proof (induction doc arbitrary: n')
  case (Node e cs)
  show ?case
  proof (cases "elem n' = e")
    case True
    then show ?thesis by auto
  next
    case False
    with Node.prems obtain c' where c': "c' \<in> set (insert_at new ref (map (insert_before new ref) cs))"
      "n' \<in> set (nodes_of c')"
      by auto
    from c'(1) set_insert_at[of new ref "map (insert_before new ref) cs"]
    consider "c' = new" | c where "c \<in> set cs" "c' = insert_before new ref c"
      by auto
    then show ?thesis
    proof cases
      case 1
      then show ?thesis using c'(2) by simp
    next
      case 2
      then show ?thesis using Node.IH[of c n'] c'(2) by auto
    qed
  qed
qed

lemma error_summaries_iff:
  "x \<in> error_summaries doc \<longleftrightarrow>
     (\<exists>n \<in> set (nodes_of doc). nid (elem n) = x \<and> ''govuk-error-summary'' \<in> set (classList (elem n)))"
  by (auto simp: error_summaries_def hasClass_def)

lemma error_summaries_update_node:
  assumes "\<And>e. nid (f e) = nid e"
    and "\<And>e. ''govuk-error-summary'' \<in> set (classList (f e)) \<Longrightarrow>
              ''govuk-error-summary'' \<in> set (classList e)"
  shows "error_summaries (update_node i f doc) \<subseteq> error_summaries doc"
proof
  fix x assume "x \<in> error_summaries (update_node i f doc)"
  then obtain n' where n': "n' \<in> set (nodes_of (update_node i f doc))" "nid (elem n') = x"
    "''govuk-error-summary'' \<in> set (classList (elem n'))"
    by (auto simp: error_summaries_iff)
  from nodes_of_update_node[OF n'(1)] obtain n where n: "n \<in> set (nodes_of doc)"
    "elem n' = (if nid (elem n) = i then f (elem n) else elem n)" by blast
  then have "nid (elem n) = x \<and> ''govuk-error-summary'' \<in> set (classList (elem n))"
    using n'(2,3) assms by (auto split: if_splits)
  then show "x \<in> error_summaries doc"
    using n(1) by (auto simp: error_summaries_iff)
qed

lemma error_summaries_remove_node: "error_summaries (remove_node i doc) \<subseteq> error_summaries doc"
proof
  fix x assume "x \<in> error_summaries (remove_node i doc)"
  then obtain n' where n': "n' \<in> set (nodes_of (remove_node i doc))" "nid (elem n') = x"
    "''govuk-error-summary'' \<in> set (classList (elem n'))"
    by (auto simp: error_summaries_iff)
  from nodes_of_remove_node[OF n'(1)] obtain n where "n \<in> set (nodes_of doc)" "elem n' = elem n"
    by blast
  then show "x \<in> error_summaries doc"
    using n'(2,3) by (auto simp: error_summaries_iff)
qed

lemma error_summaries_insert_before:
  assumes "''govuk-error-summary'' \<notin> set (classList e)"
  shows "error_summaries (insert_before (Node e []) ref doc) \<subseteq> error_summaries doc"
proof
  fix x assume "x \<in> error_summaries (insert_before (Node e []) ref doc)"
  then obtain n' where n': "n' \<in> set (nodes_of (insert_before (Node e []) ref doc))"
    "nid (elem n') = x" "''govuk-error-summary'' \<in> set (classList (elem n'))"
    by (auto simp: error_summaries_iff)
  from nodes_of_insert_before[OF n'(1)] n'(3) assms
  obtain n where "n \<in> set (nodes_of doc)" "elem n' = elem n"
    by auto
  then show "x \<in> error_summaries doc"
    using n'(2,3) by (auto simp: error_summaries_iff)
qed

lemma error_summaries_fold:
  assumes "\<And>x d. error_summaries (g x d) \<subseteq> error_summaries d"
  shows "error_summaries (fold g xs doc) \<subseteq> error_summaries doc"
proof (induction xs arbitrary: doc)
  case Nil
  then show ?case by simp
next
  case (Cons x xs)
  then show ?case using assms[of x doc] by (simp, blast)
qed

lemma error_summaries_clearErrors:
  "error_summaries (document (clearErrors form p)) \<subseteq> error_summaries (document p)"
proof -
  let ?d1 = "fold (\<lambda>group. update_node (nid (elem group)) (classList_remove ''govuk-form-group--error''))
      (filter (hasClass ''govuk-form-group--error'') (descendants_of form (document p))) (document p)"
  let ?d2 = "fold (\<lambda>error. remove_node (nid (elem error)))
      (filter (hasClass ''govuk-error-message'') (descendants_of form ?d1)) ?d1"
  have 1: "error_summaries ?d1 \<subseteq> error_summaries (document p)"
    by (rule error_summaries_fold, rule error_summaries_update_node)
       (simp_all add: classList_remove_def)
  have 2: "error_summaries ?d2 \<subseteq> error_summaries ?d1"
    by (rule error_summaries_fold, rule error_summaries_remove_node)
  have 3: "error_summaries (document (clearErrors form p)) \<subseteq> error_summaries ?d2"
    by (simp add: clearErrors_def Let_def error_summaries_remove_node split: option.splits)
  from 1 2 3 show ?thesis by blast
qed

lemma error_summaries_show_error:
  "error_summaries (document (show_error err p)) \<subseteq> error_summaries (document p)"
proof (cases "closest (hasClass ''govuk-form-group'') (err_element err) (document p)")
  case None
  then show ?thesis by (simp add: show_error_def)
next
  case (Some formGroup)
  let ?d1 = "update_node (nid (elem formGroup)) (classList_add ''govuk-form-group--error'') (document p)"
  have 1: "error_summaries ?d1 \<subseteq> error_summaries (document p)"
    by (rule error_summaries_update_node) (auto simp: classList_add_def split: if_splits)
  have 2: "error_summaries (document (show_error err p)) \<subseteq> error_summaries ?d1"
    using Some
    by (auto simp: show_error_def Let_def createElement_def split: option.splits
        dest!: subsetD[OF error_summaries_insert_before, rotated])
  from 1 2 show ?thesis by blast
qed

lemma error_summaries_fold_show_error:
  "error_summaries (document (fold show_error errors p)) \<subseteq> error_summaries (document p)"
proof (induction errors arbitrary: p)
  case Nil
  then show ?case by simp
next
  case (Cons e errors)
  then show ?case using error_summaries_show_error[of e p] by (simp, blast)
qed

lemma find_append:
  "find P (xs @ ys) = (case find P xs of None \<Rightarrow> find P ys | Some x \<Rightarrow> Some x)"
  by (induction xs) auto

lemma find_node_Node:
  "find_node i (Node e cs) =
     (if nid e = i then Some (Node e cs)
      else find (\<lambda>n. nid (elem n) = i) (concat (map nodes_of cs)))"
  by (simp add: find_node_def)

lemma find_node_child_None:
  "find_node i (Node e cs) = None \<Longrightarrow> c \<in> set cs \<Longrightarrow> find_node i c = None"
  unfolding find_node_def find_None_iff by auto

lemma prepend_child_absent: "find_node i doc = None \<Longrightarrow> prepend_child new i doc = doc"
proof (induction doc)
  case (Node e cs)
  have "nid e \<noteq> i"
    using Node.prems by (auto simp: find_node_Node split: if_splits)
  moreover have "map (prepend_child new i) cs = cs"
    using Node.IH find_node_child_None[OF Node.prems] by (intro map_idI) auto
  ultimately show ?case by simp
qed

lemma find_children_prepend_child:
  assumes "\<And>c e cs. c \<in> set cs0 \<Longrightarrow> find_node i c = Some (Node e cs) \<Longrightarrow>
             find_node i (prepend_child new i c) = Some (Node e (new # map (prepend_child new i) cs))"
    and "find (\<lambda>n. nid (elem n) = i) (concat (map nodes_of cs0)) = Some (Node e cs)"
  shows "find (\<lambda>n. nid (elem n) = i) (concat (map nodes_of (map (prepend_child new i) cs0)))
           = Some (Node e (new # map (prepend_child new i) cs))"
  using assms
proof (induction cs0)
  case Nil
  then show ?case by simp
next
  case (Cons c cs0)
  show ?case
  proof (cases "find_node i c")
    case None
    then have "prepend_child new i c = c" by (rule prepend_child_absent)
    moreover have "find (\<lambda>n. nid (elem n) = i) (concat (map nodes_of cs0)) = Some (Node e cs)"
      using Cons.prems(2) None by (simp add: find_append find_node_def)
    ultimately show ?thesis
      using Cons.IH Cons.prems(1) None by (simp add: find_append find_node_def)
  next
    case (Some t)
    then have "t = Node e cs"
      using Cons.prems(2) by (simp add: find_append find_node_def)
    then have "find_node i (prepend_child new i c) = Some (Node e (new # map (prepend_child new i) cs))"
      using Cons.prems(1)[of c e cs] Some by simp
    then show ?thesis
      by (simp add: find_append find_node_def)
  qed
qed

lemma find_node_prepend_child:
  "find_node i doc = Some (Node e cs) \<Longrightarrow>
   find_node i (prepend_child new i doc) = Some (Node e (new # map (prepend_child new i) cs))"
proof (induction doc arbitrary: e cs)
  case (Node e0 cs0)
  show ?case
  proof (cases "nid e0 = i")
    case True
    then show ?thesis using Node.prems by (simp add: find_node_Node)
  next
    case False
    then have "find (\<lambda>n. nid (elem n) = i) (concat (map nodes_of cs0)) = Some (Node e cs)"
      using Node.prems by (simp add: find_node_Node)
    then have "find (\<lambda>n. nid (elem n) = i) (concat (map nodes_of (map (prepend_child new i) cs0)))
        = Some (Node e (new # map (prepend_child new i) cs))"
      using Node.IH by (intro find_children_prepend_child) auto
    then show ?thesis using False by (simp add: find_node_Node)
  qed
qed

lemma next_nid_show_error: "next_nid p \<le> next_nid (show_error err p)"
  by (auto simp: show_error_def createElement_def Let_def split: option.splits)

lemma next_nid_fold_show_error: "next_nid p \<le> next_nid (fold show_error errors p)"
proof (induction errors arbitrary: p)
  case Nil
  then show ?case by simp
next
  case (Cons e errors)
  then show ?case using next_nid_show_error[of p e] le_trans by (simp, blast)
qed

lemma document_handleFormSubmit:
  assumes "validate_fields engine (config this) form (document (clearErrors form p))
             (Object_entries (validationSelectors_of (config this))) True [] = Inr (isValid, errors)"
  shows "document (fst (snd (handleFormSubmit engine this form p event))) =
           (if errors = [] then document (clearErrors form p)
            else document (showErrors this form errors (clearErrors form p)))"
proof -
  have "isValid = (errors = [])"
    using validate_fields_isValid[OF assms] by simp
  then show ?thesis
    using assms by (simp add: handleFormSubmit_def Let_def focus_def)
qed

lemma document_handleFormSubmit_thrown:
  assumes "validate_fields engine (config this) form (document (clearErrors form p))
             (Object_entries (validationSelectors_of (config this))) True [] = Inl e"
  shows "document (fst (snd (handleFormSubmit engine this form p event)))
           = document (clearErrors form p)"
  using assms by (simp add: handleFormSubmit_def Let_def)

lemma summary_after_validation:
  assumes "validate_fields engine (config this) form (document (clearErrors form p))
             (Object_entries (validationSelectors_of (config this))) True [] = Inr (isValid, errors)"
  shows "(truthy (obj_get (config this) ''showErrorSummary'') \<and> errors \<noteq> [] \<longrightarrow>
            (\<forall>e cs. find_node form (document (fold show_error errors (clearErrors form p)))
                        = Some (Node e cs) \<longrightarrow>
               (\<exists>summary cs'.
                   find_node form (document (fst (snd (handleFormSubmit engine this form p event))))
                     = Some (Node e (Node summary [] # cs')) \<and>
                   classList summary = [''govuk-error-summary''] \<and>
                   next_nid p \<le> nid summary))) \<and>
         (\<not> (truthy (obj_get (config this) ''showErrorSummary'') \<and> errors \<noteq> []) \<longrightarrow>
            error_summaries (document (fst (snd (handleFormSubmit engine this form p event))))
              \<subseteq> error_summaries (document p))"
proof (intro conjI impI allI)
  let ?q = "fold show_error errors (clearErrors form p)"
  fix e cs
  assume cond: "truthy (obj_get (config this) ''showErrorSummary'') \<and> errors \<noteq> []"
    and found: "find_node form (document ?q) = Some (Node e cs)"
  let ?summary = "setAttribute ''data-module'' ''govuk-error-summary''
      ((fst (createElement ''div'' ?q))\<lparr>classList := [''govuk-error-summary'']\<rparr>)"
  obtain summary where doc: "document (createErrorSummary form errors ?q)
      = prepend_child (Node summary []) form (document ?q)"
    and cls: "classList summary = [''govuk-error-summary'']" and sid: "nid summary = next_nid ?q"
    by (simp add: createErrorSummary_def createElement_def Let_def setAttribute_def)
  have "document (fst (snd (handleFormSubmit engine this form p event)))
      = prepend_child (Node summary []) form (document ?q)"
    using cond doc by (simp add: document_handleFormSubmit[OF assms] showErrors_def Let_def)
  moreover have "next_nid p \<le> nid summary"
    using next_nid_fold_show_error[of "clearErrors form p" errors]
    by (simp add: sid clearErrors_fields)
  ultimately show "\<exists>summary cs'.
      find_node form (document (fst (snd (handleFormSubmit engine this form p event))))
        = Some (Node e (Node summary [] # cs')) \<and>
      classList summary = [''govuk-error-summary''] \<and> next_nid p \<le> nid summary"
    using find_node_prepend_child[OF found, of "Node summary []"] cls by auto
next
  assume ncond: "\<not> (truthy (obj_get (config this) ''showErrorSummary'') \<and> errors \<noteq> [])"
  show "error_summaries (document (fst (snd (handleFormSubmit engine this form p event))))
      \<subseteq> error_summaries (document p)"
  proof (cases "errors = []")
    case True
    then show ?thesis
      by (simp add: document_handleFormSubmit[OF assms] error_summaries_clearErrors)
  next
    case False
    then have "document (fst (snd (handleFormSubmit engine this form p event)))
        = document (fold show_error errors (clearErrors form p))"
      using ncond by (simp add: document_handleFormSubmit[OF assms] showErrors_def Let_def)
    then show ?thesis
      using error_summaries_fold_show_error[of errors "clearErrors form p"]
        error_summaries_clearErrors[of form p]
      by auto
  qed
qed

text \<open>
  Claim C4. Take the validation pass of a submit click. Where it produces an error list,
  \<^verbatim>\<open>config.showErrorSummary\<close> is truthy (for the boolean the config declares: true) and the
  list is not empty, an element with class \<^verbatim>\<open>govuk-error-summary\<close> and a fresh identity is the
  first child of the form afterwards. In every other case, also when the pass is cut short
  by an error of the host, no summary is created: every summary in the document afterwards
  was in it before.
\<close>

theorem handleFormSubmit_summary:
  "(\<forall>isValid errors.
      validate_fields engine (config this) form (document (clearErrors form p))
        (Object_entries (validationSelectors_of (config this))) True [] = Inr (isValid, errors) \<longrightarrow>
      (truthy (obj_get (config this) ''showErrorSummary'') \<and> errors \<noteq> [] \<longrightarrow>
         (\<forall>e cs. find_node form (document (fold show_error errors (clearErrors form p)))
                     = Some (Node e cs) \<longrightarrow>
            (\<exists>summary cs'.
                find_node form (document (fst (snd (handleFormSubmit engine this form p event))))
                  = Some (Node e (Node summary [] # cs')) \<and>
                classList summary = [''govuk-error-summary''] \<and>
                next_nid p \<le> nid summary))) \<and>
      (\<not> (truthy (obj_get (config this) ''showErrorSummary'') \<and> errors \<noteq> []) \<longrightarrow>
         error_summaries (document (fst (snd (handleFormSubmit engine this form p event))))
           \<subseteq> error_summaries (document p))) \<and>
   (\<forall>thrown.
      validate_fields engine (config this) form (document (clearErrors form p))
        (Object_entries (validationSelectors_of (config this))) True [] = Inl thrown \<longrightarrow>
      error_summaries (document (fst (snd (handleFormSubmit engine this form p event))))
        \<subseteq> error_summaries (document p))"
proof (intro conjI allI impI)
  fix isValid errors e cs
  assume "validate_fields engine (config this) form (document (clearErrors form p))
        (Object_entries (validationSelectors_of (config this))) True [] = Inr (isValid, errors)"
    "truthy (obj_get (config this) ''showErrorSummary'') \<and> errors \<noteq> []"
    "find_node form (document (fold show_error errors (clearErrors form p))) = Some (Node e cs)"
  then show "\<exists>summary cs'.
      find_node form (document (fst (snd (handleFormSubmit engine this form p event))))
        = Some (Node e (Node summary [] # cs')) \<and>
      classList summary = [''govuk-error-summary''] \<and> next_nid p \<le> nid summary"
    using summary_after_validation[of engine this form p isValid errors event] by blast
next
  fix isValid errors
  assume "validate_fields engine (config this) form (document (clearErrors form p))
        (Object_entries (validationSelectors_of (config this))) True [] = Inr (isValid, errors)"
    "\<not> (truthy (obj_get (config this) ''showErrorSummary'') \<and> errors \<noteq> [])"
  then show "error_summaries (document (fst (snd (handleFormSubmit engine this form p event))))
      \<subseteq> error_summaries (document p)"
    using summary_after_validation[of engine this form p isValid errors event] by blast
next
  fix thrown
  assume "validate_fields engine (config this) form (document (clearErrors form p))
        (Object_entries (validationSelectors_of (config this))) True [] = Inl thrown"
  then show "error_summaries (document (fst (snd (handleFormSubmit engine this form p event))))
      \<subseteq> error_summaries (document p)"
    by (simp add: document_handleFormSubmit_thrown error_summaries_clearErrors)
qed

text \<open>
  The theorem at work on the example form, with \<^verbatim>\<open>showErrorSummary\<close> set and not set.
\<close>

lemma form_page_decorated:
  "find_node 11 (document (fold show_error [name_error] (clearErrors 11 form_page)))
     = Some (Node (html_el 11 ''form'' [] [])
         [Node ((html_el 12 ''div'' [''govuk-form-group''] [])
                  \<lparr>classList := [''govuk-form-group'', ''govuk-form-group--error'']\<rparr>)
            [Node ((html_el 15 ''p'' [''govuk-error-message''] [])
                     \<lparr>innerHTML := [Markup ''<span class=govuk-visually-hidden>Error:</span> '',
                                    Interpolated (Str ''This field is required'')]\<rparr>) [],
             name_input],
          submit_button])"
  unfolding form_page_clear
  by (simp add: show_error_def example_defs dom_defs Let_def)

lemma form_page_rejected:
  "validate_fields id_engine
     (config (button_with (button_config False True True [(''name'', Str ''#'')]) 14 11)) 11
     (document (clearErrors 11 form_page))
     (Object_entries (validationSelectors_of
        (config (button_with (button_config False True True [(''name'', Str ''#'')]) 14 11))))
     True [] = Inl SyntaxError"
  unfolding form_page_clear
  by (simp add: button_with_def button_config_def validationSelectors_of_def obj_get_def
      obj_keys_def querySelector_def)

theorem handleFormSubmit_summary_witness:
  "(\<exists>summary cs'.
      find_node 11 (document (fst (snd (handleFormSubmit id_engine
        (button_with (button_config False True True [(''name'', Str ''#name'')]) 14 11) 11
        form_page click))))
        = Some (Node (html_el 11 ''form'' [] []) (Node summary [] # cs')) \<and>
      classList summary = [''govuk-error-summary''] \<and> next_nid form_page \<le> nid summary) \<and>
   error_summaries (document (fst (snd (handleFormSubmit id_engine
        (button_with (button_config False True False [(''name'', Str ''#name'')]) 14 11) 11
        form_page click)))) \<subseteq> error_summaries (document form_page) \<and>
   error_summaries (document (fst (snd (handleFormSubmit id_engine
        (button_with (button_config False True True [(''name'', Str ''#'')]) 14 11) 11
        form_page click)))) \<subseteq> error_summaries (document form_page)"
proof -
  let ?shown = "button_with (button_config False True True [(''name'', Str ''#name'')]) 14 11"
  let ?hidden = "button_with (button_config False True False [(''name'', Str ''#name'')]) 14 11"
  let ?rejected = "button_with (button_config False True True [(''name'', Str ''#'')]) 14 11"
  have shown: "truthy (obj_get (config ?shown) ''showErrorSummary'') \<and> [name_error] \<noteq> []"
    by (simp add: button_with_def button_config_def obj_get_def)
  have hidden: "\<not> (truthy (obj_get (config ?hidden) ''showErrorSummary'') \<and> [name_error] \<noteq> [])"
    by (simp add: button_with_def button_config_def obj_get_def)
  have v1: "validate_fields id_engine (config ?shown) 11 (document (clearErrors 11 form_page))
      (Object_entries (validationSelectors_of (config ?shown))) True [] = Inr (False, [name_error])"
    using form_page_validation[of False True True] by (simp add: button_with_def)
  have v2: "validate_fields id_engine (config ?hidden) 11 (document (clearErrors 11 form_page))
      (Object_entries (validationSelectors_of (config ?hidden))) True [] = Inr (False, [name_error])"
    using form_page_validation[of False True False] by (simp add: button_with_def)
  have "\<exists>summary cs'.
      find_node 11 (document (fst (snd (handleFormSubmit id_engine ?shown 11 form_page click))))
        = Some (Node (html_el 11 ''form'' [] []) (Node summary [] # cs')) \<and>
      classList summary = [''govuk-error-summary''] \<and> next_nid form_page \<le> nid summary"
    using handleFormSubmit_summary[of id_engine ?shown 11 form_page click,
        THEN conjunct1, rule_format, OF v1, THEN conjunct1, rule_format,
        OF shown form_page_decorated] .
  moreover have "error_summaries (document (fst (snd
        (handleFormSubmit id_engine ?hidden 11 form_page click))))
      \<subseteq> error_summaries (document form_page)"
    using handleFormSubmit_summary[of id_engine ?hidden 11 form_page click,
        THEN conjunct1, rule_format, OF v2, THEN conjunct2, rule_format, OF hidden] .
  moreover have "error_summaries (document (fst (snd
        (handleFormSubmit id_engine ?rejected 11 form_page click))))
      \<subseteq> error_summaries (document form_page)"
    using handleFormSubmit_summary[of id_engine ?rejected 11 form_page click,
        THEN conjunct2, rule_format, OF form_page_rejected] .
  ultimately show ?thesis by (intro conjI)
qed

section \<open>Repeated submits\<close>

text \<open>
  Claim C5 fails on the code where the form group of a validated field is not inside the
  form. On \<open>outer_page\<close> the form lies inside the group: the error message goes before
  the first input of the group, outside the form, where \<^verbatim>\<open>clearErrors\<close> does not look. One
  submit leaves one error message; a second submit over the unchanged form leaves two.
\<close>

theorem clearErrors_misses_outer_group:
  "error_messages (document (fst (snd
     (handleFormSubmit id_engine outer_button 16 outer_page click)))) = [17] \<and>
   error_messages (document (fst (snd
     (handleFormSubmit id_engine outer_button 16
        (fst (snd (handleFormSubmit id_engine outer_button 16 outer_page click))) click))))
     = [17, 19]"
  by (simp add: error_messages_def outer_button_def example_defs dom_defs handler_defs)

end
